theory Spec2Isabelle
  imports Complex_Main "HOL-Library.Word"
begin

section \<open>Time-sharing scheduler (00-multitasking/lab2/main/lab2.c)\<close>

text \<open>
  The globals of lab2.c are the fields of one state record. The C types are kept:
  \<open>uint32_t\<close> is a 32-bit word, \<open>uint64_t\<close> a 64-bit word, so every \<open>++\<close> and
  \<open>+=\<close> wraps as in C. The monotonic clock \<open>esp_timer_get_time()\<close> is an input of the
  program: a function \<open>clk\<close> gives the value of the k-th read, and the state counts the
  reads made so far. \<open>vTaskDelay\<close> only lets time pass (seen through the clock) and the
  busy loops over a \<open>volatile int dummy\<close> write no global, so neither changes the
  state. A value of type \<open>float\<close> is the real number it denotes, and every \<open>float\<close>
  operation rounds its exact result to single precision (see \<open>f32_round\<close> below).
\<close>

type_synonym u32 = "32 word"
type_synonym u64 = "64 word"

datatype task_id = TASK_SENSOR | TASK_PROCESS | TASK_ACTUATOR | TASK_DISPLAY

definition TASK_COUNT :: u32 where
  "TASK_COUNT = 4"

definition TIME_SLICE_MS :: u32 where
  "TIME_SLICE_MS = 50"

definition LED1_PIN :: nat where "LED1_PIN = 2"
definition LED2_PIN :: nat where "LED2_PIN = 4"
definition LED3_PIN :: nat where "LED3_PIN = 5"
definition LED4_PIN :: nat where "LED4_PIN = 18"

text \<open>The enumeration order of \<open>task_id_t\<close>: the registry the dispatcher cycles through.\<close>

definition registry :: "task_id list" where
  "registry = [TASK_SENSOR, TASK_PROCESS, TASK_ACTUATOR, TASK_DISPLAY]"

text \<open>One block of "Round n Statistics" lines written by \<open>manual_task\<close>.\<close>

record round_stats =
  rs_round :: u32
  rs_context_switches :: u32
  rs_total_time :: u64
  rs_accumulated :: u64
  rs_cpu_utilization :: real
  rs_overhead_percentage :: real
  rs_avg_per_task_us :: u64

text \<open>The lines written by \<open>variable_time_slice_experiment\<close> for one slice value.\<close>

record trial_stats =
  tr_slice_ms :: u32
  tr_efficiency :: real
  tr_context_switches :: u32
  tr_test_duration :: u64
  tr_accumulated :: u64
  tr_avg_us :: u64

record sched_state =
  task_counter :: u32
  context_switch_time :: u64
  context_switches :: u32
  run_manual_scheduler :: bool
  current_time_slice_ms :: u32
  sensor_count :: u32
  process_count :: u32
  actuator_count :: u32
  display_count :: u32
  round_count :: u32
  gpio :: "nat \<Rightarrow> nat"
  clock_reads :: nat
  task_log :: "(task_id \<times> u32) list"
  round_log :: "round_stats list"
  trial_log :: "trial_stats list"

definition gpio_set_level :: "nat \<Rightarrow> nat \<Rightarrow> sched_state \<Rightarrow> sched_state" where
  "gpio_set_level pin level st = st\<lparr>gpio := (gpio st)(pin := level)\<rparr>"

text \<open>
  The four workloads: a log line carrying the task's own static counter (then
  incremented), the LED on, a busy loop, the LED off.
\<close>

definition simulate_sensor_task :: "sched_state \<Rightarrow> sched_state" where
  "simulate_sensor_task st =
     gpio_set_level LED1_PIN 0 (gpio_set_level LED1_PIN 1
       (st\<lparr>task_log := task_log st @ [(TASK_SENSOR, sensor_count st)],
           sensor_count := sensor_count st + 1\<rparr>))"

definition simulate_processing_task :: "sched_state \<Rightarrow> sched_state" where
  "simulate_processing_task st =
     gpio_set_level LED2_PIN 0 (gpio_set_level LED2_PIN 1
       (st\<lparr>task_log := task_log st @ [(TASK_PROCESS, process_count st)],
           process_count := process_count st + 1\<rparr>))"

definition simulate_actuator_task :: "sched_state \<Rightarrow> sched_state" where
  "simulate_actuator_task st =
     gpio_set_level LED3_PIN 0 (gpio_set_level LED3_PIN 1
       (st\<lparr>task_log := task_log st @ [(TASK_ACTUATOR, actuator_count st)],
           actuator_count := actuator_count st + 1\<rparr>))"

definition simulate_display_task :: "sched_state \<Rightarrow> sched_state" where
  "simulate_display_task st =
     gpio_set_level LED4_PIN 0 (gpio_set_level LED4_PIN 1
       (st\<lparr>task_log := task_log st @ [(TASK_DISPLAY, display_count st)],
           display_count := display_count st + 1\<rparr>))"

text \<open>
  The \<open>switch (task_counter % TASK_COUNT)\<close> of \<open>manual_scheduler\<close>: the case label
  matched by a value, \<open>None\<close> for the \<open>default\<close> branch.
\<close>

definition switch_case :: "u32 \<Rightarrow> task_id option" where
  "switch_case k =
     (if k = 0 then Some TASK_SENSOR
      else if k = 1 then Some TASK_PROCESS
      else if k = 2 then Some TASK_ACTUATOR
      else if k = 3 then Some TASK_DISPLAY
      else None)"

fun run_task :: "task_id \<Rightarrow> sched_state \<Rightarrow> sched_state" where
  "run_task TASK_SENSOR st = simulate_sensor_task st"
| "run_task TASK_PROCESS st = simulate_processing_task st"
| "run_task TASK_ACTUATOR st = simulate_actuator_task st"
| "run_task TASK_DISPLAY st = simulate_display_task st"

definition execute_current_task :: "sched_state \<Rightarrow> sched_state" where
  "execute_current_task st =
     (case switch_case (task_counter st mod TASK_COUNT) of
        Some t \<Rightarrow> run_task t st
      | None \<Rightarrow> st)"

definition esp_timer_get_time :: "(nat \<Rightarrow> u64) \<Rightarrow> sched_state \<Rightarrow> u64 \<times> sched_state" where
  "esp_timer_get_time clk st = (clk (clock_reads st), st\<lparr>clock_reads := clock_reads st + 1\<rparr>)"

text \<open>One dispatch cycle, \<open>manual_scheduler()\<close>.\<close>

definition manual_scheduler :: "(nat \<Rightarrow> u64) \<Rightarrow> sched_state \<Rightarrow> sched_state" where
  "manual_scheduler clk st =
     (let (start_time, st1) = esp_timer_get_time clk st;
          st2 = st1\<lparr>context_switches := context_switches st1 + 1\<rparr>;
          st3 = execute_current_task st2;
          (end_time, st4) = esp_timer_get_time clk st3;
          st5 = st4\<lparr>context_switch_time := context_switch_time st4 + (end_time - start_time)\<rparr>
      in st5\<lparr>task_counter := task_counter st5 + 1\<rparr>)"

text \<open>The static counter a workload prints.\<close>

fun invocation_count :: "task_id \<Rightarrow> sched_state \<Rightarrow> u32" where
  "invocation_count TASK_SENSOR st = sensor_count st"
| "invocation_count TASK_PROCESS st = process_count st"
| "invocation_count TASK_ACTUATOR st = actuator_count st"
| "invocation_count TASK_DISPLAY st = display_count st"

text \<open>\<open>n\<close> consecutive dispatch cycles: the body of the loops that call \<open>manual_scheduler\<close>.\<close>

primrec run_cycles :: "nat \<Rightarrow> (nat \<Rightarrow> u64) \<Rightarrow> sched_state \<Rightarrow> sched_state" where
  "run_cycles 0 clk st = st"
| "run_cycles (Suc n) clk st = run_cycles n clk (manual_scheduler clk st)"


subsection \<open>Derived statistics\<close>

text \<open>
  Division is where the C code can go wrong: \<open>uint64_t\<close> division by zero is undefined
  and \<open>float\<close> division by zero yields no finite number. Both are partial here
  (\<open>None\<close> for a zero divisor), so that a guard of the source is a branch that decides
  whether the division is reached at all.
\<close>

text \<open>
  Single precision (IEEE 754 binary32): a finite non-zero value is \<open>m * 2 ^ (e - 23)\<close>
  with an integer \<open>m\<close> of 24 bits, \<open>2 ^ 23 \<le> \<bar>m\<bar> < 2 ^ 24\<close>. An operation
  returns the value nearest to its exact result, the one with even \<open>m\<close> on a tie.
  The exponent range is not modelled (no overflow to infinity, no subnormal numbers):
  the values computed here are a \<open>uint64_t\<close>, the quotient of two of them with a
  divisor of at least 1, that quotient times 100, and 100 minus that, all 0 or of a
  magnitude between \<open>2 ^ - 64\<close> and \<open>2 ^ 72\<close>, well inside the normal range.
\<close>

definition round_half_even :: "real \<Rightarrow> int" where
  "round_half_even y =
     (let f = \<lfloor>y\<rfloor>; d = y - of_int f
      in if d < 1 / 2 then f
         else if 1 / 2 < d then f + 1
         else if even f then f else f + 1)"

definition f32_round :: "real \<Rightarrow> real" where
  "f32_round x =
     (if x = 0 then 0
      else (let e = \<lfloor>log 2 \<bar>x\<bar>\<rfloor>
            in sgn x * of_int (round_half_even (\<bar>x\<bar> / 2 powi (e - 23))) * 2 powi (e - 23)))"

definition float_div :: "real \<Rightarrow> real \<Rightarrow> real option" where
  "float_div x y = (if y = 0 then None else Some (f32_round (x / y)))"

definition float_mul :: "real \<Rightarrow> real \<Rightarrow> real" where
  "float_mul x y = f32_round (x * y)"

definition float_sub :: "real \<Rightarrow> real \<Rightarrow> real" where
  "float_sub x y = f32_round (x - y)"

definition u64_div :: "u64 \<Rightarrow> u64 \<Rightarrow> u64 option" where
  "u64_div x y = (if y = 0 then None else Some (x div y))"

text \<open>The conversion \<open>(float)x\<close> of a \<open>uint64_t\<close>.\<close>

definition float_of_u64 :: "u64 \<Rightarrow> real" where
  "float_of_u64 x = f32_round (real (unat x))"

text \<open>
  \<open>cpu_utilization\<close> of \<open>manual_task\<close>: 0 unless \<open>total_time > 0\<close>, else
  \<open>((float)context_switch_time / (float)total_time) * 100.0f\<close>.
\<close>

definition cpu_utilization :: "u64 \<Rightarrow> u64 \<Rightarrow> real option" where
  "cpu_utilization busy total_time =
     (if 0 < total_time
      then map_option (\<lambda>q. float_mul q 100)
             (float_div (float_of_u64 busy) (float_of_u64 total_time))
      else Some 0)"

text \<open>\<open>efficiency\<close> of the experiment: the same shape over \<open>test_duration\<close>.\<close>

definition efficiency :: "u64 \<Rightarrow> u64 \<Rightarrow> real option" where
  "efficiency busy test_duration =
     (if 0 < test_duration
      then map_option (\<lambda>q. float_mul q 100)
             (float_div (float_of_u64 busy) (float_of_u64 test_duration))
      else Some 0)"

text \<open>
  \<open>(context_switches > 0) ? (context_switch_time / context_switches) : 0\<close>, the
  \<open>uint32_t\<close> operand converted to \<open>uint64_t\<close> for the division. The source casts the
  result to \<open>int64_t\<close>: the same 64 bits, read with \<open>sint\<close>.
\<close>

definition avg_per_task_us :: "u64 \<Rightarrow> u32 \<Rightarrow> u64 option" where
  "avg_per_task_us busy switches =
     (if 0 < switches then u64_div busy (ucast switches) else Some 0)"

subsection \<open>The background task and the experiment\<close>

text \<open>
  One pass of the \<open>while (1)\<close> body of \<open>manual_task\<close>. The result is \<open>None\<close> if a
  division by zero would be executed.
\<close>

definition manual_task_iteration :: "(nat \<Rightarrow> u64) \<Rightarrow> sched_state \<Rightarrow> sched_state option" where
  "manual_task_iteration clk st =
     (if run_manual_scheduler st then
        (let st1 = manual_scheduler clk st in
         if 0 < context_switches st1 \<and> context_switches st1 mod 20 = 0 then
           (let st2 = st1\<lparr>round_count := round_count st1 + 1\<rparr>;
                (total_time, st3) = esp_timer_get_time clk st2
            in Option.bind (cpu_utilization (context_switch_time st3) total_time) (\<lambda>u.
               Option.bind (avg_per_task_us (context_switch_time st3) (context_switches st3)) (\<lambda>a.
               Some (st3\<lparr>round_log := round_log st3 @
                 [\<lparr>rs_round = round_count st3,
                   rs_context_switches = context_switches st3,
                   rs_total_time = total_time,
                   rs_accumulated = context_switch_time st3,
                   rs_cpu_utilization = u,
                   rs_overhead_percentage = float_sub 100 u,
                   rs_avg_per_task_us = a\<rparr>]\<rparr>))))
         else Some st1)
      else Some st)"

definition time_slices :: "u32 list" where
  "time_slices = [10, 25, 50, 100, 200]"

definition iterations :: nat where
  "iterations = 50"

text \<open>The body of the outer \<open>for\<close> loop of the experiment, for the slice value \<open>ts\<close>.\<close>

definition run_trial :: "(nat \<Rightarrow> u64) \<Rightarrow> u32 \<Rightarrow> sched_state \<Rightarrow> sched_state option" where
  "run_trial clk ts st =
     (let st1 = st\<lparr>context_switches := 0, context_switch_time := 0, task_counter := 0\<rparr>;
          (test_start, st2) = esp_timer_get_time clk st1;
          st3 = run_cycles iterations clk st2;
          (test_end, st4) = esp_timer_get_time clk st3;
          test_duration = test_end - test_start
      in Option.bind (efficiency (context_switch_time st4) test_duration) (\<lambda>e.
         Option.bind (avg_per_task_us (context_switch_time st4) (context_switches st4)) (\<lambda>a.
         Some (st4\<lparr>trial_log := trial_log st4 @
           [\<lparr>tr_slice_ms = ts,
             tr_efficiency = e,
             tr_context_switches = context_switches st4,
             tr_test_duration = test_duration,
             tr_accumulated = context_switch_time st4,
             tr_avg_us = a\<rparr>]\<rparr>))))"

fun run_trials :: "(nat \<Rightarrow> u64) \<Rightarrow> u32 list \<Rightarrow> sched_state \<Rightarrow> sched_state option" where
  "run_trials clk [] st = Some st"
| "run_trials clk (ts # tss) st = Option.bind (run_trial clk ts st) (run_trials clk tss)"

definition variable_time_slice_experiment :: "(nat \<Rightarrow> u64) \<Rightarrow> sched_state \<Rightarrow> sched_state option" where
  "variable_time_slice_experiment clk st =
     Option.bind (run_trials clk time_slices (st\<lparr>run_manual_scheduler := False\<rparr>)) (\<lambda>st'.
       Some (st'\<lparr>current_time_slice_ms := TIME_SLICE_MS, run_manual_scheduler := True\<rparr>))"

text \<open>The state at boot: the initialisers of the globals and of the function statics.\<close>

definition boot_state :: sched_state where
  "boot_state =
     \<lparr>task_counter = 0, context_switch_time = 0, context_switches = 0,
      run_manual_scheduler = True, current_time_slice_ms = TIME_SLICE_MS,
      sensor_count = 0, process_count = 0, actuator_count = 0, display_count = 0,
      round_count = 0, gpio = (\<lambda>_. 0), clock_reads = 0,
      task_log = [], round_log = [], trial_log = []\<rparr>"

text \<open>
  The time accumulated by \<open>n\<close> consecutive dispatch cycles when the first of them
  makes the \<open>r\<close>-th clock read: each cycle adds \<open>end_time - start_time\<close>.
\<close>

definition busy_time :: "(nat \<Rightarrow> u64) \<Rightarrow> nat \<Rightarrow> nat \<Rightarrow> u64" where
  "busy_time clk r n = (\<Sum>j<n. clk (r + 2 * j + 1) - clk (r + 2 * j))"

text \<open>The task ids logged by the dispatch cycles made after the log had length \<open>k\<close>.\<close>

definition selected_since :: "nat \<Rightarrow> sched_state \<Rightarrow> task_id list" where
  "selected_since k st = map fst (drop k (task_log st))"


section \<open>Cooperative scheduler (00-multitasking/lab3/main/lab3.c)\<close>

text \<open>
  lab3.c runs in one thread: \<open>app_main\<close> calls \<open>cooperative_scheduler\<close>, which calls
  the task functions of its table one after the other. The file-scope statics
  \<open>emergency_flag\<close>, \<open>task_start_time\<close> and \<open>max_response_time\<close> are written by
  this code only (no interrupt handler and no second task is installed), so the state
  is passed from call to call. The inputs are the button level read by
  \<open>gpio_get_level(BUTTON_PIN)\<close> (\<open>btn k\<close> is the level at the k-th poll, 0 when
  pressed) and the clock. The trace records the log lines and, as instrumentation, each
  call made by the dispatcher, each completed busy loop of a task (one work unit, with
  the value the flag had when the unit began) and each \<open>vTaskDelay(1)\<close> of a task.
\<close>

datatype coop_event =
    Button_pressed
  | Task_called nat
  | Task_running nat u32
  | Work_unit nat nat bool
  | Yielding_for_emergency nat
  | Voluntary_yield nat
  | Emergency_response u32 u32

record coop_state =
  emergency_flag :: bool
  task_start_time :: u64
  max_response_time :: u32
  task1_count :: u32
  task2_count :: u32
  current_task :: nat
  coop_gpio :: "nat \<Rightarrow> nat"
  coop_clock_reads :: nat
  button_polls :: nat
  coop_trace :: "coop_event list"

definition BUTTON_PIN :: nat where "BUTTON_PIN = 0"

definition coop_log :: "coop_event \<Rightarrow> coop_state \<Rightarrow> coop_state" where
  "coop_log e st = st\<lparr>coop_trace := coop_trace st @ [e]\<rparr>"

definition coop_gpio_set_level :: "nat \<Rightarrow> nat \<Rightarrow> coop_state \<Rightarrow> coop_state" where
  "coop_gpio_set_level pin level st = st\<lparr>coop_gpio := (coop_gpio st)(pin := level)\<rparr>"

definition coop_get_time :: "(nat \<Rightarrow> u64) \<Rightarrow> coop_state \<Rightarrow> u64 \<times> coop_state" where
  "coop_get_time clk st =
     (clk (coop_clock_reads st), st\<lparr>coop_clock_reads := coop_clock_reads st + 1\<rparr>)"

definition gpio_get_level :: "(nat \<Rightarrow> nat) \<Rightarrow> coop_state \<Rightarrow> nat \<times> coop_state" where
  "gpio_get_level btn st = (btn (button_polls st), st\<lparr>button_polls := button_polls st + 1\<rparr>)"

text \<open>
  The \<open>for (int i = 0; i < quota; i++)\<close> loop shared by the two normal tasks: the busy
  loop of step \<open>i\<close>, then the emergency yield point (LED off and \<open>return\<close>), else the
  voluntary yield. After the last step the LED is switched off.
\<close>

function coop_work_loop :: "nat \<Rightarrow> nat \<Rightarrow> nat \<Rightarrow> nat \<Rightarrow> coop_state \<Rightarrow> coop_state" where
  "coop_work_loop n pin quota i st =
     (if i < quota then
        (let st1 = coop_log (Work_unit n i (emergency_flag st)) st in
         if emergency_flag st1
         then coop_gpio_set_level pin 0 (coop_log (Yielding_for_emergency n) st1)
         else coop_work_loop n pin quota (i + 1) (coop_log (Voluntary_yield n) st1))
      else coop_gpio_set_level pin 0 st)"
  by pat_completeness auto
termination
  by (relation "measure (\<lambda>(n, pin, quota, i, st). quota - i)") auto

definition cooperative_task1 :: "coop_state \<Rightarrow> coop_state" where
  "cooperative_task1 st =
     coop_work_loop 1 LED1_PIN 5 0
       (coop_gpio_set_level LED1_PIN 1
         (coop_log (Task_running 1 (task1_count st)) (st\<lparr>task1_count := task1_count st + 1\<rparr>)))"

definition cooperative_task2 :: "coop_state \<Rightarrow> coop_state" where
  "cooperative_task2 st =
     coop_work_loop 2 LED2_PIN 10 0
       (coop_gpio_set_level LED2_PIN 1
         (coop_log (Task_running 2 (task2_count st)) (st\<lparr>task2_count := task2_count st + 1\<rparr>)))"

text \<open>
  The emergency handler. \<open>response_ms\<close> is \<open>(uint32_t)(response_time / 1000)\<close>: a
  64-bit division, then truncation to 32 bits.
\<close>

definition response_ms_of :: "u64 \<Rightarrow> u64 \<Rightarrow> u32" where
  "response_ms_of now raised_at = ucast ((now - raised_at) div 1000)"

definition cooperative_task3_emergency :: "(nat \<Rightarrow> u64) \<Rightarrow> coop_state \<Rightarrow> coop_state" where
  "cooperative_task3_emergency clk st =
     (if emergency_flag st then
        (let (now, st1) = coop_get_time clk st;
             response_ms = response_ms_of now (task_start_time st1);
             st2 = (if max_response_time st1 < response_ms
                    then st1\<lparr>max_response_time := response_ms\<rparr> else st1);
             st3 = coop_log (Emergency_response response_ms (max_response_time st2)) st2;
             st4 = coop_gpio_set_level LED3_PIN 0 (coop_gpio_set_level LED3_PIN 1 st3)
         in st4\<lparr>emergency_flag := False\<rparr>)
      else st)"

record coop_task =
  task_function :: "(nat \<Rightarrow> u64) \<Rightarrow> coop_state \<Rightarrow> coop_state"
  task_name :: string
  ready :: bool

definition tasks :: "coop_task list" where
  "tasks =
     [\<lparr>task_function = (\<lambda>clk. cooperative_task1), task_name = ''Task1'', ready = True\<rparr>,
      \<lparr>task_function = (\<lambda>clk. cooperative_task2), task_name = ''Task2'', ready = True\<rparr>,
      \<lparr>task_function = cooperative_task3_emergency, task_name = ''Emergency'', ready = True\<rparr>]"

definition num_tasks :: nat where
  "num_tasks = length tasks"

text \<open>
  One pass of the \<open>while (1)\<close> body of \<open>cooperative_scheduler\<close>: the button check, the
  call of the current task, the advance of \<open>current_task\<close>. The closing
  \<open>vTaskDelay\<close> of the pass, like the 200 ms delay of the handler, only lets time pass.
  \<open>current_task\<close> starts at 0 and advances modulo \<open>num_tasks\<close>, so the table is read
  at an index below 3 only; the properties below are stated for such states.
\<close>

definition scheduler_iteration :: "(nat \<Rightarrow> nat) \<Rightarrow> (nat \<Rightarrow> u64) \<Rightarrow> coop_state \<Rightarrow> coop_state" where
  "scheduler_iteration btn clk st =
     (let (level, st1) = gpio_get_level btn st;
          st2 = (if level = 0 \<and> \<not> emergency_flag st1 then
                   (let (now, st') = coop_get_time clk (st1\<lparr>emergency_flag := True\<rparr>)
                    in coop_log Button_pressed (st'\<lparr>task_start_time := now\<rparr>))
                 else st1);
          t = tasks ! current_task st2;
          st3 = (if ready t
                 then task_function t clk (coop_log (Task_called (current_task st2)) st2)
                 else st2)
      in st3\<lparr>current_task := (current_task st3 + 1) mod num_tasks\<rparr>)"

text \<open>
  The loop never ends; its behaviour is the family of its finite prefixes. \<open>scheduler_loop n\<close>
  is the first \<open>n\<close> passes, and \<open>cooperative_scheduler n\<close> starts them as the function
  does, with \<open>current_task = 0\<close>.
\<close>

primrec scheduler_loop :: "nat \<Rightarrow> (nat \<Rightarrow> nat) \<Rightarrow> (nat \<Rightarrow> u64) \<Rightarrow> coop_state \<Rightarrow> coop_state" where
  "scheduler_loop 0 btn clk st = st"
| "scheduler_loop (Suc n) btn clk st = scheduler_loop n btn clk (scheduler_iteration btn clk st)"

definition cooperative_scheduler :: "nat \<Rightarrow> (nat \<Rightarrow> nat) \<Rightarrow> (nat \<Rightarrow> u64) \<Rightarrow> coop_state \<Rightarrow> coop_state" where
  "cooperative_scheduler n btn clk st = scheduler_loop n btn clk (st\<lparr>current_task := 0\<rparr>)"

definition coop_boot_state :: coop_state where
  "coop_boot_state =
     \<lparr>emergency_flag = False, task_start_time = 0, max_response_time = 0,
      task1_count = 0, task2_count = 0, current_task = 0, coop_gpio = (\<lambda>_. 0),
      coop_clock_reads = 0, button_polls = 0, coop_trace = []\<rparr>"

text \<open>Reading a trace: the events after position \<open>k\<close>, the work units of a task, the calls.\<close>

definition events_since :: "nat \<Rightarrow> coop_state \<Rightarrow> coop_event list" where
  "events_since k st = drop k (coop_trace st)"

text \<open>Whether a pass of the dispatcher loop, made in state \<open>st\<close>, calls the emergency handler.\<close>

definition handler_called_in_pass :: "(nat \<Rightarrow> nat) \<Rightarrow> (nat \<Rightarrow> u64) \<Rightarrow> coop_state \<Rightarrow> bool" where
  "handler_called_in_pass btn clk st \<longleftrightarrow>
     Task_called 2 \<in> set (events_since (length (coop_trace st)) (scheduler_iteration btn clk st))"

fun is_work_unit_of :: "nat \<Rightarrow> coop_event \<Rightarrow> bool" where
  "is_work_unit_of n (Work_unit m i b) = (m = n)"
| "is_work_unit_of n e = False"

definition work_units :: "nat \<Rightarrow> coop_event list \<Rightarrow> nat" where
  "work_units n evs = length (filter (is_work_unit_of n) evs)"

fun called_tasks :: "coop_event list \<Rightarrow> nat list" where
  "called_tasks [] = []"
| "called_tasks (Task_called i # evs) = i # called_tasks evs"
| "called_tasks (e # evs) = called_tasks evs"

subsection \<open>Facts about one dispatch cycle\<close>

lemma mod_TASK_COUNT_cases:
  fixes w :: u32
  shows "w mod TASK_COUNT = 0 \<or> w mod TASK_COUNT = 1 \<or> w mod TASK_COUNT = 2 \<or> w mod TASK_COUNT = 3"
proof -
  have "unat (w mod 4) < 4"
    by (simp add: unat_mod)
  then have "unat (w mod 4) = 0 \<or> unat (w mod 4) = 1 \<or> unat (w mod 4) = 2 \<or> unat (w mod 4) = 3"
    by arith
  then show ?thesis
    unfolding TASK_COUNT_def by (auto simp: word_unat_eq_iff)
qed

lemma switch_case_registry:
  fixes w :: u32
  shows "switch_case (w mod TASK_COUNT) = Some (registry ! unat (w mod TASK_COUNT))"
  using mod_TASK_COUNT_cases [of w]
  by (auto simp: switch_case_def registry_def)

lemma execute_current_task_frame:
  "task_counter (execute_current_task st) = task_counter st"
  "context_switches (execute_current_task st) = context_switches st"
  "context_switch_time (execute_current_task st) = context_switch_time st"
  "clock_reads (execute_current_task st) = clock_reads st"
  "run_manual_scheduler (execute_current_task st) = run_manual_scheduler st"
  "current_time_slice_ms (execute_current_task st) = current_time_slice_ms st"
  "round_count (execute_current_task st) = round_count st"
  "round_log (execute_current_task st) = round_log st"
  "trial_log (execute_current_task st) = trial_log st"
  using mod_TASK_COUNT_cases [of "task_counter st"]
  by (auto simp: execute_current_task_def switch_case_def simulate_sensor_task_def
      simulate_processing_task_def simulate_actuator_task_def simulate_display_task_def
      gpio_set_level_def)

lemma execute_current_task_log:
  "task_log (execute_current_task st) =
     task_log st @ [(registry ! unat (task_counter st mod TASK_COUNT),
                     invocation_count (registry ! unat (task_counter st mod TASK_COUNT)) st)]"
  using mod_TASK_COUNT_cases [of "task_counter st"]
  by (auto simp: execute_current_task_def switch_case_def simulate_sensor_task_def
      simulate_processing_task_def simulate_actuator_task_def simulate_display_task_def
      gpio_set_level_def registry_def)

lemma manual_scheduler_frame:
  "task_counter (manual_scheduler clk st) = task_counter st + 1"
  "context_switches (manual_scheduler clk st) = context_switches st + 1"
  "context_switch_time (manual_scheduler clk st) =
     context_switch_time st + (clk (clock_reads st + 1) - clk (clock_reads st))"
  "clock_reads (manual_scheduler clk st) = clock_reads st + 2"
  "run_manual_scheduler (manual_scheduler clk st) = run_manual_scheduler st"
  "current_time_slice_ms (manual_scheduler clk st) = current_time_slice_ms st"
  "round_count (manual_scheduler clk st) = round_count st"
  "round_log (manual_scheduler clk st) = round_log st"
  "trial_log (manual_scheduler clk st) = trial_log st"
  by (simp_all add: manual_scheduler_def esp_timer_get_time_def Let_def execute_current_task_frame)

lemma invocation_count_frame:
  "invocation_count t (st\<lparr>clock_reads := r\<rparr>) = invocation_count t st"
  "invocation_count t (st\<lparr>context_switches := c\<rparr>) = invocation_count t st"
  by (cases t; simp)+

lemma manual_scheduler_log:
  "task_log (manual_scheduler clk st) =
     task_log st @ [(registry ! unat (task_counter st mod TASK_COUNT),
                     invocation_count (registry ! unat (task_counter st mod TASK_COUNT)) st)]"
  by (simp add: manual_scheduler_def esp_timer_get_time_def Let_def execute_current_task_frame
      execute_current_task_log invocation_count_frame)

lemma unat_of_nat_mod_TASK_COUNT:
  "unat ((w + of_nat i :: u32) mod TASK_COUNT) = (unat w + i) mod 4"
proof -
  have "unat ((w + of_nat i :: u32) mod 4) = unat (w + of_nat i) mod 4"
    by (simp add: unat_mod)
  also have "unat (w + of_nat i :: u32) = (unat w + i) mod 2 ^ 32"
    by (simp add: unat_word_ariths unat_of_nat mod_add_right_eq)
  also have "(unat w + i) mod 2 ^ 32 mod 4 = (unat w + i) mod 4"
    by (rule mod_mod_cancel) simp
  finally show ?thesis by (simp add: TASK_COUNT_def)
qed

lemma run_cycles_frame:
  "task_counter (run_cycles n clk st) = task_counter st + of_nat n"
  "context_switches (run_cycles n clk st) = context_switches st + of_nat n"
  "clock_reads (run_cycles n clk st) = clock_reads st + 2 * n"
  "run_manual_scheduler (run_cycles n clk st) = run_manual_scheduler st"
  "current_time_slice_ms (run_cycles n clk st) = current_time_slice_ms st"
  "round_count (run_cycles n clk st) = round_count st"
  "round_log (run_cycles n clk st) = round_log st"
  "trial_log (run_cycles n clk st) = trial_log st"
  by (induction n arbitrary: st; simp add: manual_scheduler_frame)+

lemma run_cycles_selected_word:
  "map fst (task_log (run_cycles n clk st)) =
     map fst (task_log st) @
     map (\<lambda>i. registry ! unat ((task_counter st + of_nat i) mod TASK_COUNT)) [0..<n]"
proof (induction n arbitrary: st)
  case 0
  then show ?case by simp
next
  case (Suc n)
  have "[0..<Suc n] = 0 # map Suc [0..<n]"
    by (simp add: upt_conv_Cons map_Suc_upt del: upt_Suc)
  then have "map (\<lambda>i. registry ! unat ((task_counter st + of_nat i) mod TASK_COUNT)) [0..<Suc n] =
        registry ! unat (task_counter st mod TASK_COUNT) #
        map (\<lambda>i. registry ! unat ((task_counter st + 1 + of_nat i) mod TASK_COUNT)) [0..<n]"
    by (simp add: comp_def add.assoc del: upt_Suc)
  then show ?case
    using Suc [of "manual_scheduler clk st"]
    by (simp add: manual_scheduler_frame manual_scheduler_log del: upt_Suc)
qed

lemma run_cycles_selected:
  "map fst (task_log (run_cycles n clk st)) =
     map fst (task_log st) @ map (\<lambda>i. registry ! ((unat (task_counter st) + i) mod 4)) [0..<n]"
  by (simp add: run_cycles_selected_word unat_of_nat_mod_TASK_COUNT)

lemma count_block:
  "count_list (map (\<lambda>i. registry ! ((c + i) mod 4)) [0..<4 * k]) t = k"
proof (induction k)
  case 0
  then show ?case by simp
next
  case (Suc k)
  have e: "4 * Suc k = Suc (Suc (Suc (Suc (4 * k))))"
    by simp
  have split: "[0..<4 * Suc k] =
      [0..<4 * k] @ [4 * k, Suc (4 * k), Suc (Suc (4 * k)), Suc (Suc (Suc (4 * k)))]"
    unfolding e by simp
  have c: "c mod 4 = 0 \<or> c mod 4 = 1 \<or> c mod 4 = 2 \<or> c mod 4 = 3"
    by arith
  have m: "(c + 4 * k) mod 4 = c mod 4" "(c + Suc (4 * k)) mod 4 = (c mod 4 + 1) mod 4"
    "(c + Suc (Suc (4 * k))) mod 4 = (c mod 4 + 2) mod 4"
    "(c + Suc (Suc (Suc (4 * k)))) mod 4 = (c mod 4 + 3) mod 4"
    by presburger+
  have blk: "map (\<lambda>i. registry ! ((c + i) mod 4))
          [4 * k, Suc (4 * k), Suc (Suc (4 * k)), Suc (Suc (Suc (4 * k)))] =
        [registry ! (c mod 4), registry ! ((c mod 4 + 1) mod 4),
         registry ! ((c mod 4 + 2) mod 4), registry ! ((c mod 4 + 3) mod 4)]"
    by (simp only: list.map m)
  have "count_list (map (\<lambda>i. registry ! ((c + i) mod 4))
          [4 * k, Suc (4 * k), Suc (Suc (4 * k)), Suc (Suc (Suc (4 * k)))]) t = 1"
    unfolding blk using c by (cases t; elim disjE; simp add: registry_def)
  then show ?case
    using Suc by (simp only: split map_append count_list_append)
qed

subsection \<open>Selection stays in range\<close>

text \<open>
  Claim C9. Whatever the value of \<open>task_counter\<close>, the index
  \<open>task_counter % TASK_COUNT\<close> is below \<open>TASK_COUNT\<close>, the \<open>switch\<close> matches one of
  its four case labels (never the \<open>default\<close> branch, which is \<open>None\<close> in
  \<open>switch_case\<close>), and the dispatch cycle runs exactly one workload: the task log grows
  by the one line of the selected task.
\<close>

theorem selection_in_range:
  "task_counter st mod TASK_COUNT < TASK_COUNT \<and>
   (\<exists>t. switch_case (task_counter st mod TASK_COUNT) = Some t \<and>
        task_log (manual_scheduler clk st) = task_log st @ [(t, invocation_count t st)])"
proof -
  have "task_counter st mod TASK_COUNT < TASK_COUNT"
    by (simp add: TASK_COUNT_def word_mod_less_divisor)
  then show ?thesis
    by (simp add: switch_case_registry manual_scheduler_log)
qed

subsection \<open>Round-robin fairness\<close>

text \<open>
  Claim C1. In every state a dispatch cycle selects
  \<open>registry[task_counter mod TASK_COUNT]\<close>, so the \<open>i\<close>-th of \<open>N\<close> consecutive cycles
  selects \<open>registry[(task_counter + i) mod TASK_COUNT]\<close> (the counter is a 32-bit
  word; its wrap-around keeps the cycle because 4 divides \<open>2 ^ 32\<close>). When \<open>N\<close> is a
  multiple of \<open>TASK_COUNT\<close>, each task is selected exactly \<open>N div TASK_COUNT\<close> times
  in the \<open>N\<close> cycles, from any value of the counter and so from a reset
  (\<open>task_counter = 0\<close>).
\<close>

theorem round_robin_fairness:
  "selected_since (length (task_log st)) (manual_scheduler clk st) =
     [registry ! unat (task_counter st mod TASK_COUNT)] \<and>
   selected_since (length (task_log st)) (run_cycles N clk st) =
     map (\<lambda>i. registry ! unat ((task_counter st + of_nat i) mod TASK_COUNT)) [0..<N] \<and>
   (N mod unat TASK_COUNT = 0 \<longrightarrow>
      count_list (selected_since (length (task_log st)) (run_cycles N clk st)) t =
        N div unat TASK_COUNT)"
proof -
  have four: "unat TASK_COUNT = 4"
    by (simp add: TASK_COUNT_def)
  have sel: "selected_since (length (task_log st)) (run_cycles N clk st) =
        drop (length (map fst (task_log st))) (map fst (task_log (run_cycles N clk st)))"
    by (simp add: selected_since_def drop_map)
  have word: "selected_since (length (task_log st)) (run_cycles N clk st) =
      map (\<lambda>i. registry ! unat ((task_counter st + of_nat i) mod TASK_COUNT)) [0..<N]"
    unfolding sel by (simp only: run_cycles_selected_word append_eq_conv_conj drop_append) simp
  have nat: "selected_since (length (task_log st)) (run_cycles N clk st) =
      map (\<lambda>i. registry ! ((unat (task_counter st) + i) mod 4)) [0..<N]"
    unfolding sel by (simp only: run_cycles_selected append_eq_conv_conj drop_append) simp
  have count: "count_list (selected_since (length (task_log st)) (run_cycles N clk st)) t =
      N div unat TASK_COUNT" if "N mod unat TASK_COUNT = 0"
  proof -
    from that obtain k where N: "N = 4 * k"
      unfolding four by (auto simp: mod_eq_0_iff_dvd)
    have "count_list (map (\<lambda>i. registry ! ((unat (task_counter st) + i) mod 4)) [0..<N]) t = k"
      unfolding N by (rule count_block)
    then have "count_list (selected_since (length (task_log st)) (run_cycles N clk st)) t = k"
      by (simp only: nat)
    then show ?thesis
      by (simp add: N four)
  qed
  have one: "selected_since (length (task_log st)) (manual_scheduler clk st) =
           [registry ! unat (task_counter st mod TASK_COUNT)]"
    by (simp add: selected_since_def manual_scheduler_log)
  show ?thesis
    using one word count by blast
qed

theorem round_robin_fairness_witness:
  "task_counter boot_state = 0 \<and> 8 mod unat TASK_COUNT = 0 \<and>
   selected_since 0 (manual_scheduler (\<lambda>k. 0) boot_state) = [TASK_SENSOR] \<and>
   selected_since 0 (manual_scheduler (\<lambda>k. 0) (boot_state\<lparr>task_counter := 6\<rparr>)) =
     [TASK_ACTUATOR] \<and>
   count_list (selected_since 0 (run_cycles 8 (\<lambda>k. 0) boot_state)) TASK_ACTUATOR = 2"
proof -
  have a: "task_counter boot_state = 0"
    by (simp add: boot_state_def)
  have b: "8 mod unat TASK_COUNT = 0"
    by (simp add: TASK_COUNT_def)
  have c: "length (task_log boot_state) = 0"
    "length (task_log (boot_state\<lparr>task_counter := 6\<rparr>)) = 0"
    by (simp_all add: boot_state_def)
  have d: "registry ! unat ((0 :: u32) mod TASK_COUNT) = TASK_SENSOR"
    "registry ! unat ((6 :: u32) mod TASK_COUNT) = TASK_ACTUATOR"
    by (simp_all add: TASK_COUNT_def registry_def)
  note at_boot = round_robin_fairness [of boot_state "\<lambda>k. 0" 8 TASK_ACTUATOR]
  note at_six = round_robin_fairness [of "boot_state\<lparr>task_counter := 6\<rparr>" "\<lambda>k. 0" 8 TASK_ACTUATOR]
  have "selected_since (length (task_log boot_state)) (manual_scheduler (\<lambda>k. 0) boot_state) =
      [registry ! unat (task_counter boot_state mod TASK_COUNT)]"
    using at_boot by (rule conjunct1)
  then have one: "selected_since 0 (manual_scheduler (\<lambda>k. 0) boot_state) = [TASK_SENSOR]"
    by (simp only: c a d)
  have "selected_since (length (task_log (boot_state\<lparr>task_counter := 6\<rparr>)))
        (manual_scheduler (\<lambda>k. 0) (boot_state\<lparr>task_counter := 6\<rparr>)) =
      [registry ! unat (task_counter (boot_state\<lparr>task_counter := 6\<rparr>) mod TASK_COUNT)]"
    using at_six by (rule conjunct1)
  moreover have "task_counter (boot_state\<lparr>task_counter := 6\<rparr>) = 6"
    by simp
  ultimately have two:
    "selected_since 0 (manual_scheduler (\<lambda>k. 0) (boot_state\<lparr>task_counter := 6\<rparr>)) =
       [TASK_ACTUATOR]"
    by (simp only: c d)
  have "count_list (selected_since (length (task_log boot_state))
      (run_cycles 8 (\<lambda>k. 0) boot_state)) TASK_ACTUATOR = 8 div unat TASK_COUNT"
    using at_boot b by blast
  then have three:
    "count_list (selected_since 0 (run_cycles 8 (\<lambda>k. 0) boot_state)) TASK_ACTUATOR = 2"
    by (simp add: c TASK_COUNT_def)
  show ?thesis
    using a b one two three by blast
qed

subsection \<open>Zero guards of the derived statistics\<close>

text \<open>Rounding to single precision: the error, and what it keeps.\<close>

lemma round_half_even_error: "\<bar>of_int (round_half_even y) - y\<bar> \<le> 1 / 2"
  unfolding round_half_even_def Let_def by (auto simp: abs_if) linarith+

lemma round_half_even_ge:
  assumes "of_int k \<le> y"
  shows "k \<le> round_half_even y"
proof -
  have "k \<le> \<lfloor>y\<rfloor>"
    using assms by (simp add: le_floor_iff)
  then show ?thesis
    unfolding round_half_even_def Let_def by auto
qed

lemma round_half_even_of_int: "round_half_even (of_int k) = k"
  by (simp add: round_half_even_def)

lemma floor_log2_iff:
  assumes "0 < x"
  shows "\<lfloor>log 2 x\<rfloor> = e \<longleftrightarrow> 2 powi e \<le> x \<and> x < 2 powi (e + 1)"
proof -
  have p: "(2::real) powr real_of_int k = 2 powi k" for k
    by (simp add: powr_real_of_int')
  have "(\<lfloor>log 2 x\<rfloor> = e) = (2 powr real_of_int e \<le> x \<and> x < 2 powr real_of_int (e + 1))"
    by (rule floor_log_eq_powr_iff) (use assms in simp_all)
  then show ?thesis
    by (simp only: p)
qed

lemma f32_round_pos:
  assumes "0 < x" and "2 powi e \<le> x" and "x < 2 powi (e + 1)"
  shows "f32_round x = of_int (round_half_even (x / 2 powi (e - 23))) * 2 powi (e - 23)"
proof -
  have "\<lfloor>log 2 x\<rfloor> = e"
    using assms by (simp add: floor_log2_iff)
  then show ?thesis
    using assms(1) by (simp add: f32_round_def)
qed

lemma f32_round_0: "f32_round 0 = 0"
  by (simp add: f32_round_def)

lemma f32_round_minus: "f32_round (- x) = - f32_round x"
  by (simp add: f32_round_def Let_def)

lemma f32_round_error_pos:
  assumes "0 < x"
  shows "\<bar>f32_round x - x\<bar> \<le> x / 2 ^ 24"
proof -
  define e where "e = \<lfloor>log 2 x\<rfloor>"
  have b: "2 powi e \<le> x" "x < 2 powi (e + 1)"
    using floor_log2_iff [OF assms, of e] by (simp_all add: e_def)
  define u :: real where "u = 2 powi (e - 23)"
  have u: "0 < u"
    by (simp add: u_def)
  have r: "f32_round x = of_int (round_half_even (x / u)) * u"
    unfolding u_def by (rule f32_round_pos [OF assms b])
  have "\<bar>of_int (round_half_even (x / u)) - x / u\<bar> \<le> 1 / 2"
    by (rule round_half_even_error)
  then have "\<bar>of_int (round_half_even (x / u)) - x / u\<bar> * u \<le> 1 / 2 * u"
    using u by (simp only: mult_le_cancel_right) simp
  moreover have "\<bar>of_int (round_half_even (x / u)) - x / u\<bar> * u = \<bar>f32_round x - x\<bar>"
  proof -
    have "(of_int (round_half_even (x / u)) - x / u) * u = f32_round x - x"
      using u by (simp add: r field_simps)
    then have "\<bar>f32_round x - x\<bar> = \<bar>of_int (round_half_even (x / u)) - x / u\<bar> * \<bar>u\<bar>"
      by (simp only: abs_mult [symmetric])
    then show ?thesis
      using u by simp
  qed
  moreover have "1 / 2 * u = 2 powi e / 2 ^ 24"
    by (simp add: u_def power_int_diff)
  ultimately have "\<bar>f32_round x - x\<bar> \<le> 2 powi e / 2 ^ 24"
    by simp
  also have "\<dots> \<le> x / 2 ^ 24"
    using b(1) by (simp add: divide_right_mono)
  finally show ?thesis .
qed

lemma f32_round_error: "\<bar>f32_round x - x\<bar> \<le> \<bar>x\<bar> / 2 ^ 24"
proof (cases "0 < x")
  case True
  then show ?thesis
    using f32_round_error_pos [of x] by simp
next
  case False
  show ?thesis
  proof (cases "x = 0")
    case True
    then show ?thesis by (simp add: f32_round_0)
  next
    case nz: False
    then have "0 < - x"
      using False by simp
    from f32_round_error_pos [OF this]
    have "\<bar>- f32_round x - - x\<bar> \<le> - x / 2 ^ 24"
      by (simp only: f32_round_minus)
    moreover have "\<bar>- f32_round x - - x\<bar> = \<bar>f32_round x - x\<bar>"
      by (simp add: abs_minus_commute)
    moreover have "\<bar>x\<bar> = - x"
      using False by simp
    ultimately show ?thesis
      by simp
  qed
qed

lemma f32_round_ge_1:
  assumes "1 \<le> x"
  shows "1 \<le> f32_round x"
proof -
  have pos: "0 < x"
    using assms by simp
  define e where "e = \<lfloor>log 2 x\<rfloor>"
  have b: "2 powi e \<le> x" "x < 2 powi (e + 1)"
    using floor_log2_iff [OF pos, of e] by (simp_all add: e_def)
  have e0: "0 \<le> e"
  proof (rule ccontr)
    assume "\<not> 0 \<le> e"
    then have "e + 1 \<le> 0"
      by simp
    then have "(2::real) powi (e + 1) \<le> 2 powi 0"
      by (rule power_int_increasing) simp
    with b(2) assms show False
      by simp
  qed
  define u :: real where "u = 2 powi (e - 23)"
  have u: "0 < u"
    by (simp add: u_def)
  have r: "f32_round x = of_int (round_half_even (x / u)) * u"
    unfolding u_def by (rule f32_round_pos [OF pos b])
  have "2 powi e / u = (2::real) ^ 23"
    by (simp add: u_def power_int_diff)
  then have "of_int (2 ^ 23) \<le> x / u"
    using b(1) u by (simp add: divide_right_mono del: of_int_power)
       (metis divide_right_mono less_imp_le)
  then have "2 ^ 23 \<le> round_half_even (x / u)"
    by (rule round_half_even_ge)
  then have "(2::real) ^ 23 \<le> of_int (round_half_even (x / u))"
    by (metis of_int_le_iff of_int_numeral of_int_power)
  then have "2 ^ 23 * u \<le> f32_round x"
    using u by (simp add: r)
  moreover have "2 ^ 23 * u = 2 powi e"
    by (simp add: u_def power_int_diff)
  moreover have "(1::real) \<le> 2 powi e"
    using power_int_increasing [of 0 e "2::real"] e0 by simp
  ultimately show ?thesis
    by linarith
qed

lemma float_of_u64_pos: "0 < t \<Longrightarrow> float_of_u64 t \<noteq> 0"
proof -
  assume "0 < t"
  then have "unat t \<noteq> 0"
    by (simp add: word_greater_zero_iff unsigned_eq_0_iff)
  then have "1 \<le> unat t"
    by arith
  then have "real 1 \<le> real (unat t)"
    by (simp only: of_nat_le_iff)
  then have "1 \<le> real (unat t)"
    by simp
  then have "1 \<le> f32_round (real (unat t))"
    by (rule f32_round_ge_1)
  then show ?thesis
    by (simp add: float_of_u64_def)
qed

lemma cpu_utilization_eq:
  "cpu_utilization busy tt =
     Some (if 0 < tt
           then f32_round (f32_round (float_of_u64 busy / float_of_u64 tt) * 100) else 0)"
  by (simp add: cpu_utilization_def float_div_def float_mul_def float_of_u64_pos)

lemma efficiency_eq:
  "efficiency busy d =
     Some (if 0 < d then f32_round (f32_round (float_of_u64 busy / float_of_u64 d) * 100) else 0)"
  by (simp add: efficiency_def float_div_def float_mul_def float_of_u64_pos)

lemma unat_ucast_u32_u64: "unat (ucast (n :: u32) :: u64) = unat n"
proof -
  have "unat n < 2 ^ 32"
    using unsigned_less [of n] by simp
  then have "unat n < 2 ^ 64"
    by simp
  then show ?thesis
    by (simp add: unsigned_ucast_eq take_bit_nat_eq_self)
qed

lemma ucast_u32_eq_0: "(ucast (n :: u32) :: u64) = 0 \<longleftrightarrow> n = 0"
  using unat_ucast_u32_u64 [of n] by (metis unat_eq_0)

lemma avg_per_task_us_eq:
  "avg_per_task_us busy n = Some (if 0 < n then busy div ucast n else 0)"
  by (simp add: avg_per_task_us_def u64_div_def ucast_u32_eq_0 word_greater_zero_iff)

text \<open>
  Claim C4. With a zero denominator (wall-clock duration, test duration or
  \<open>context_switches\<close>) each derived metric is 0 and no division is made; in
  particular the utilization over a wall-clock time of 0 is 0. For every input the
  metric has a value: the guarded division is never reached with a zero divisor.
\<close>

theorem zero_guard:
  "cpu_utilization busy 0 = Some 0 \<and> efficiency busy 0 = Some 0 \<and>
   avg_per_task_us busy 0 = Some 0 \<and>
   cpu_utilization busy t \<noteq> None \<and> efficiency busy d \<noteq> None \<and>
   avg_per_task_us busy n \<noteq> None"
  by (simp add: cpu_utilization_eq efficiency_eq avg_per_task_us_eq)

lemma positive_multiple_of_20:
  fixes cs :: u32
  shows "(0 < cs \<and> cs mod 20 = 0) \<longleftrightarrow> (0 < unat cs \<and> unat cs mod 20 = 0)"
proof -
  have "unat (cs mod 20) = unat cs mod 20"
    by (simp add: unat_mod)
  then have "cs mod 20 = 0 \<longleftrightarrow> unat cs mod 20 = 0"
    by (metis unat_eq_0)
  moreover have "0 < unat cs \<longleftrightarrow> cs \<noteq> 0"
    using unat_eq_0 [of cs] by auto
  ultimately show ?thesis
    by (simp add: word_greater_zero_iff)
qed

lemma manual_task_iteration_eq:
  assumes "run_manual_scheduler st"
  shows "manual_task_iteration clk st =
     Some (let st1 = manual_scheduler clk st in
       if 0 < context_switches st1 \<and> context_switches st1 mod 20 = 0
       then st1\<lparr>round_count := round_count st + 1, clock_reads := clock_reads st + 3,
              round_log := round_log st @
                [\<lparr>rs_round = round_count st + 1,
                  rs_context_switches = context_switches st1,
                  rs_total_time = clk (clock_reads st + 2),
                  rs_accumulated = context_switch_time st1,
                  rs_cpu_utilization =
                    (if 0 < clk (clock_reads st + 2)
                     then f32_round (f32_round (float_of_u64 (context_switch_time st1) /
                            float_of_u64 (clk (clock_reads st + 2))) * 100) else 0),
                  rs_overhead_percentage = f32_round (100 -
                    (if 0 < clk (clock_reads st + 2)
                     then f32_round (f32_round (float_of_u64 (context_switch_time st1) /
                            float_of_u64 (clk (clock_reads st + 2))) * 100) else 0)),
                  rs_avg_per_task_us = context_switch_time st1 div ucast (context_switches st1)\<rparr>]\<rparr>
       else st1)"
  using assms
  by (simp add: manual_task_iteration_def Let_def esp_timer_get_time_def cpu_utilization_eq
      avg_per_task_us_eq manual_scheduler_frame float_sub_def)

subsection \<open>The average as a signed 64-bit number\<close>

lemma sint_small:
  assumes "unat (x :: u64) < 2 ^ 63"
  shows "sint x = int (unat x)"
proof -
  from assms have "int (unat x) < int (2 ^ 63)"
    by (simp only: of_nat_less_iff)
  then have "uint x < 2 ^ 63"
    by (simp only: uint_nat of_nat_power of_nat_numeral)
  moreover have "- (2 ^ 63) \<le> uint x"
    by (rule order_trans [of _ 0]) simp_all
  ultimately have fits: "signed_take_bit 63 (uint x) = uint x"
    by (rule signed_take_bit_int_eq_self [rotated])
  have len: "LENGTH(64) - Suc 0 = 63"
    by simp
  have "sint x = signed_take_bit 63 (uint x)"
    by (simp only: sint_uint len)
  also have "\<dots> = uint x"
    by (rule fits)
  also have "\<dots> = int (unat x)"
    by (rule uint_nat)
  finally show ?thesis .
qed

lemma avg_fits:
  fixes busy :: u64 and n :: nat
  assumes "20 \<le> n"
  shows "unat busy div n < 2 ^ 63"
proof -
  have "unat busy < 2 ^ 64"
    using unsigned_less [of busy] by simp
  then have "unat busy div n \<le> 2 ^ 64 div 20"
    using assms by (meson div_le_mono div_le_mono2 less_imp_le order_trans zero_less_numeral)
  then show ?thesis by simp
qed

lemma avg_as_int64:
  fixes busy :: u64 and cs :: u32
  assumes "0 < unat cs" and "unat cs mod 20 = 0"
  shows "sint (busy div ucast cs) = int (unat busy div unat cs)"
proof -
  have "20 \<le> unat cs"
    using assms by presburger
  then have "unat busy div unat cs < 2 ^ 63"
    by (rule avg_fits)
  moreover have "unat (busy div ucast cs) = unat busy div unat cs"
    by (simp add: unat_div unat_ucast_u32_u64)
  ultimately show ?thesis
    by (simp add: sint_small)
qed

subsection \<open>The variable time slice experiment\<close>

lemma busy_time_Suc:
  "busy_time clk r (Suc n) = (clk (r + 1) - clk r) + busy_time clk (r + 2) n"
  unfolding busy_time_def
  by (subst sum.lessThan_Suc_shift) (simp add: add.assoc add.commute add.left_commute)

lemma run_cycles_time:
  "context_switch_time (run_cycles n clk st) =
     context_switch_time st + busy_time clk (clock_reads st) n"
proof (induction n arbitrary: st)
  case 0
  then show ?case by (simp add: busy_time_def)
next
  case (Suc n)
  show ?case
    by (simp add: Suc [of "manual_scheduler clk st"] manual_scheduler_frame busy_time_Suc
        add.assoc)
qed

lemma run_cycles_log_length:
  "length (task_log (run_cycles n clk st)) = length (task_log st) + n"
  by (induction n arbitrary: st) (simp_all add: manual_scheduler_log)

lemma run_trial_result:
  "\<exists>st' r. run_trial clk ts st = Some st' \<and>
     context_switches st' = 50 \<and> task_counter st' = 50 \<and>
     context_switch_time st' = busy_time clk (clock_reads st + 1) 50 \<and>
     clock_reads st' = clock_reads st + 102 \<and>
     run_manual_scheduler st' = run_manual_scheduler st \<and>
     current_time_slice_ms st' = current_time_slice_ms st \<and>
     round_log st' = round_log st \<and>
     length (task_log st') = length (task_log st) + 50 \<and>
     trial_log st' = trial_log st @ [r] \<and>
     tr_slice_ms r = ts \<and> tr_context_switches r = 50"
  by (simp add: run_trial_def esp_timer_get_time_def Let_def efficiency_eq avg_per_task_us_eq
      run_cycles_frame run_cycles_time run_cycles_log_length iterations_def)

lemma run_trial_resets:
  "run_trial clk ts (st\<lparr>context_switches := a, context_switch_time := b, task_counter := c\<rparr>) =
   run_trial clk ts st"
  by (simp add: run_trial_def)

lemma run_trials_append:
  "run_trials clk (xs @ ys) st = Option.bind (run_trials clk xs st) (run_trials clk ys)"
proof (induction xs arbitrary: st)
  case Nil
  then show ?case by simp
next
  case (Cons x xs)
  show ?case
    by (cases "run_trial clk x st") (simp_all add: Cons)
qed

lemma run_trials_result:
  "\<exists>st'. run_trials clk tss st = Some st' \<and>
     clock_reads st' = clock_reads st + 102 * length tss \<and>
     run_manual_scheduler st' = run_manual_scheduler st \<and>
     current_time_slice_ms st' = current_time_slice_ms st \<and>
     round_log st' = round_log st \<and>
     length (task_log st') = length (task_log st) + 50 * length tss \<and>
     map tr_slice_ms (trial_log st') = map tr_slice_ms (trial_log st) @ tss \<and>
     map tr_context_switches (trial_log st') =
       map tr_context_switches (trial_log st) @ replicate (length tss) 50"
proof (induction tss arbitrary: st)
  case Nil
  then show ?case by simp
next
  case (Cons ts tss)
  obtain s r where s: "run_trial clk ts st = Some s"
    "clock_reads s = clock_reads st + 102"
    "run_manual_scheduler s = run_manual_scheduler st"
    "current_time_slice_ms s = current_time_slice_ms st"
    "round_log s = round_log st"
    "length (task_log s) = length (task_log st) + 50"
    "trial_log s = trial_log st @ [r]" "tr_slice_ms r = ts" "tr_context_switches r = 50"
    using run_trial_result [of clk ts st] by blast
  from Cons [of s] obtain s' where s': "run_trials clk tss s = Some s'"
    "clock_reads s' = clock_reads s + 102 * length tss"
    "run_manual_scheduler s' = run_manual_scheduler s"
    "current_time_slice_ms s' = current_time_slice_ms s"
    "round_log s' = round_log s"
    "length (task_log s') = length (task_log s) + 50 * length tss"
    "map tr_slice_ms (trial_log s') = map tr_slice_ms (trial_log s) @ tss"
    "map tr_context_switches (trial_log s') =
       map tr_context_switches (trial_log s) @ replicate (length tss) 50"
    by blast
  show ?case
    by (simp add: s s')
qed

lemma new_entries:
  assumes "map f ys = map f xs @ zs"
  shows "map f (drop (length xs) ys) = zs"
proof -
  have "map f (drop (length xs) ys) = drop (length (map f xs)) (map f ys)"
    by (simp add: drop_map)
  then show ?thesis
    by (simp add: assms)
qed

lemma experiment_result:
  "\<exists>st'. variable_time_slice_experiment clk st = Some st' \<and>
     run_manual_scheduler st' \<and> current_time_slice_ms st' = TIME_SLICE_MS \<and>
     context_switches st' = 50 \<and> task_counter st' = 50 \<and>
     context_switch_time st' = busy_time clk (clock_reads st + 409) 50 \<and>
     length (task_log st') = length (task_log st) + 250 \<and>
     map tr_slice_ms (drop (length (trial_log st)) (trial_log st')) = time_slices \<and>
     map tr_context_switches (drop (length (trial_log st)) (trial_log st')) =
       [50, 50, 50, 50, 50]"
proof -
  let ?st0 = "st\<lparr>run_manual_scheduler := False\<rparr>"
  obtain s where s: "run_trials clk [10, 25, 50, 100] ?st0 = Some s"
    "clock_reads s = clock_reads ?st0 + 102 * length [10, 25, 50, 100 :: u32]"
    "length (task_log s) = length (task_log ?st0) + 50 * length [10, 25, 50, 100 :: u32]"
    "map tr_slice_ms (trial_log s) = map tr_slice_ms (trial_log ?st0) @ [10, 25, 50, 100]"
    "map tr_context_switches (trial_log s) =
       map tr_context_switches (trial_log ?st0) @ replicate (length [10, 25, 50, 100 :: u32]) 50"
    using run_trials_result [of clk "[10, 25, 50, 100]" ?st0] by blast
  obtain s' r where s': "run_trial clk 200 s = Some s'"
    "context_switches s' = 50" "task_counter s' = 50"
    "context_switch_time s' = busy_time clk (clock_reads s + 1) 50"
    "length (task_log s') = length (task_log s) + 50"
    "trial_log s' = trial_log s @ [r]" "tr_slice_ms r = 200" "tr_context_switches r = 50"
    using run_trial_result [of clk 200 s] by blast
  have split: "time_slices = [10, 25, 50, 100] @ [200]"
    by (simp add: time_slices_def)
  have "run_trials clk time_slices ?st0 = Option.bind (Some s) (run_trials clk [200])"
    by (simp only: split run_trials_append s(1))
  then have all: "run_trials clk time_slices ?st0 = Some s'"
    by (simp add: s')
  have run: "variable_time_slice_experiment clk st =
      Some (s'\<lparr>current_time_slice_ms := TIME_SLICE_MS, run_manual_scheduler := True\<rparr>)"
    by (simp add: variable_time_slice_experiment_def all)
  have slices: "map tr_slice_ms (trial_log s') = map tr_slice_ms (trial_log st) @ time_slices"
    using s s' by (simp add: time_slices_def)
  have counts: "map tr_context_switches (trial_log s') =
      map tr_context_switches (trial_log st) @ [50, 50, 50, 50, 50]"
    using s s' by (simp add: numeral_eq_Suc)
  have r: "clock_reads s + 1 = clock_reads st + 409"
    using s(2) by simp
  have t: "context_switch_time s' = busy_time clk (clock_reads st + 409) 50"
    by (simp only: s'(4) r)
  have l: "length (task_log s') = length (task_log st) + 250"
    using s(3) s'(5) by simp
  show ?thesis
    by (simp add: run t l s'(2,3) new_entries [OF slices] new_entries [OF counts])
qed

text \<open>
  Claim C5. The experiment runs the slice list 10, 25, 50, 100, 200 in this order; each
  trial starts from counters set to 0 (its result does not depend on the values they had),
  makes exactly 50 dispatch cycles and reports \<open>context_switches = 50\<close>. Hence two
  runs, on any two clocks and from any two states, report the same counts.
\<close>

theorem experiment_determinism:
  "\<exists>s1 s2. variable_time_slice_experiment clk1 st1 = Some s1 \<and>
     variable_time_slice_experiment clk2 st2 = Some s2 \<and>
     map tr_slice_ms (drop (length (trial_log st1)) (trial_log s1)) = [10, 25, 50, 100, 200] \<and>
     map tr_context_switches (drop (length (trial_log st1)) (trial_log s1)) =
       [50, 50, 50, 50, 50] \<and>
     map tr_context_switches (drop (length (trial_log st2)) (trial_log s2)) =
       map tr_context_switches (drop (length (trial_log st1)) (trial_log s1)) \<and>
     length (task_log s1) = length (task_log st1) + 5 * 50 \<and>
     run_trial clk1 ts (st1\<lparr>context_switches := a, context_switch_time := b, task_counter := c\<rparr>) =
       run_trial clk1 ts st1 \<and>
     (\<exists>s. run_trial clk1 ts st1 = Some s \<and> context_switches s = 50 \<and>
          length (task_log s) = length (task_log st1) + 50)"
proof -
  from experiment_result [of clk1 st1]
  obtain s1 where s1: "variable_time_slice_experiment clk1 st1 = Some s1"
    "length (task_log s1) = length (task_log st1) + 250"
    "map tr_slice_ms (drop (length (trial_log st1)) (trial_log s1)) = time_slices"
    "map tr_context_switches (drop (length (trial_log st1)) (trial_log s1)) = [50, 50, 50, 50, 50]"
    by (elim exE conjE)
  from experiment_result [of clk2 st2]
  obtain s2 where s2: "variable_time_slice_experiment clk2 st2 = Some s2"
    "map tr_context_switches (drop (length (trial_log st2)) (trial_log s2)) = [50, 50, 50, 50, 50]"
    by (elim exE conjE)
  from run_trial_result [of clk1 ts st1]
  obtain s where s: "run_trial clk1 ts st1 = Some s" "context_switches s = 50"
    "length (task_log s) = length (task_log st1) + 50"
    by (elim exE conjE)
  show ?thesis
    using s1 s2 s by (simp add: run_trial_resets time_slices_def)
qed

text \<open>
  Claim C10. When the experiment returns, the background scheduler is enabled again and
  \<open>current_time_slice_ms\<close> is the default 50. The counters keep what the last trial
  (slice 200) left: \<open>context_switches\<close> and \<open>task_counter\<close> are 50 and the
  accumulated time is that of the last 50 cycles, whatever the values before the
  experiment.
\<close>

theorem experiment_post_state:
  "\<exists>st'. variable_time_slice_experiment clk st = Some st' \<and>
     run_manual_scheduler st' \<and> current_time_slice_ms st' = 50 \<and>
     context_switches st' = 50 \<and> task_counter st' = 50 \<and>
     context_switch_time st' = busy_time clk (clock_reads st + 409) 50"
  using experiment_result [of clk st] by (auto simp: TIME_SLICE_MS_def)

subsection \<open>Derived statistics of a pass of the scheduler task\<close>

text \<open>
  Claim C6, as amended. A pass of the scheduler task with the scheduler enabled computes
  the statistics exactly when \<open>context_switches\<close>, after the dispatch cycle of the
  pass, is a positive multiple of 20; a paused pass computes nothing and changes nothing.
  The utilization is the single-precision value of
  \<open>((float)busy / (float)total) * 100.0f\<close> (0 for a time of 0) and the overhead the
  single-precision value of \<open>100.0f - utilization\<close>, so that the two add up to 100
  up to the rounding of that subtraction, a relative error of at most \<open>2 ^ - 24\<close>. The
  average is the accumulated busy time divided by \<open>context_switches\<close> in 64-bit
  integers, the same number when read as \<open>int64_t\<close>. The 50 cycles of a trial of
  the experiment, which pass 20 and 40, compute no such statistics.
\<close>

theorem derived_statistics:
  "\<exists>st'. manual_task_iteration clk st = Some st' \<and>
     (if run_manual_scheduler st then
        (let cs = context_switches st + 1;
             busy = context_switch_time st + (clk (clock_reads st + 1) - clk (clock_reads st));
             total_time = clk (clock_reads st + 2)
         in if 0 < unat cs \<and> unat cs mod 20 = 0
            then \<exists>r. round_log st' = round_log st @ [r] \<and>
                   rs_context_switches r = cs \<and>
                   rs_accumulated r = busy \<and>
                   rs_total_time r = total_time \<and>
                   rs_cpu_utilization r =
                     (if 0 < total_time
                      then f32_round (f32_round (f32_round (real (unat busy)) /
                             f32_round (real (unat total_time))) * 100)
                      else 0) \<and>
                   rs_overhead_percentage r = f32_round (100 - rs_cpu_utilization r) \<and>
                   \<bar>rs_cpu_utilization r + rs_overhead_percentage r - 100\<bar> \<le>
                     \<bar>100 - rs_cpu_utilization r\<bar> / 2 ^ 24 \<and>
                   rs_avg_per_task_us r = busy div ucast cs \<and>
                   sint (rs_avg_per_task_us r) = int (unat busy div unat cs)
            else round_log st' = round_log st)
      else st' = st) \<and>
     (\<exists>s. run_trial clk ts st = Some s \<and> context_switches s = 50 \<and>
          round_log s = round_log st)"
proof -
  from run_trial_result [of clk ts st]
  have trial: "\<exists>s. run_trial clk ts st = Some s \<and> context_switches s = 50 \<and>
      round_log s = round_log st"
    by blast
  show ?thesis
  proof (cases "run_manual_scheduler st")
  case False
  then show ?thesis
    using trial by (simp add: manual_task_iteration_def)
next
  case True
  have bound: "\<bar>u + f32_round (100 - u) - 100\<bar> \<le> \<bar>100 - u\<bar> / 2 ^ 24" for u
    using f32_round_error [of "100 - u"] by (simp add: algebra_simps)
  show ?thesis
  proof (cases "0 < unat (context_switches st + 1) \<and> unat (context_switches st + 1) mod 20 = 0")
    case yes: True
    then have w: "0 < context_switches st + 1 \<and> (context_switches st + 1) mod 20 = 0"
      by (rule positive_multiple_of_20 [THEN iffD2])
    show ?thesis
      using True yes w avg_as_int64 [of "context_switches st + 1"] bound trial
      by (simp add: manual_task_iteration_eq manual_scheduler_frame Let_def float_of_u64_def)
  next
    case no: False
    have w: "\<not> (0 < context_switches st + 1 \<and> (context_switches st + 1) mod 20 = 0)"
    proof
      assume "0 < context_switches st + 1 \<and> (context_switches st + 1) mod 20 = 0"
      then have "0 < unat (context_switches st + 1) \<and> unat (context_switches st + 1) mod 20 = 0"
        by (rule positive_multiple_of_20 [THEN iffD1])
      with no show False
        by (rule notE)
    qed
    show ?thesis
      using True no w trial
      by (simp add: manual_task_iteration_eq manual_scheduler_frame Let_def)
  qed
qed
qed

lemma f32_round_values:
  "f32_round 1000 = 1000" "f32_round 2000 = 2000" "f32_round (1 / 2) = 1 / 2"
  "f32_round 50 = 50"
  "f32_round 3000 = 3000" "f32_round 1000000 = 1000000"
  "f32_round (3 / 1000) = 6442451 / 2147483648"
  "f32_round (6442451 / 2147483648 * 100) = 5033165 / 16777216"
  "f32_round (100 - 5033165 / 16777216) = 6533939 / 65536"
  "f32_round (161061275 / 536870912) = 5033165 / 16777216"
  "f32_round (1672688435 / 16777216) = 6533939 / 65536"
  using f32_round_pos [of 1000 9] f32_round_pos [of 2000 10] f32_round_pos [of "1 / 2" "- 1"]
    f32_round_pos [of 50 5]
    f32_round_pos [of 3000 11] f32_round_pos [of 1000000 19]
    f32_round_pos [of "3 / 1000" "- 9"]
    f32_round_pos [of "6442451 / 2147483648 * 100" "- 2"]
    f32_round_pos [of "100 - 5033165 / 16777216" 6]
    f32_round_pos [of "161061275 / 536870912" "- 2"]
    f32_round_pos [of "1672688435 / 16777216" 6]
  by (simp_all add: power_int_minus round_half_even_def)

theorem derived_statistics_witness:
  "run_manual_scheduler (boot_state\<lparr>context_switches := 19\<rparr>) \<and>
   (\<exists>st'. manual_task_iteration (\<lambda>k. 1000 * of_nat k) (boot_state\<lparr>context_switches := 19\<rparr>) = Some st' \<and>
      (\<exists>r. round_log st' = [r] \<and> rs_context_switches r = 20 \<and> rs_accumulated r = 1000 \<and>
           rs_total_time r = 2000 \<and> rs_cpu_utilization r = 50 \<and>
           rs_overhead_percentage r = 50 \<and> rs_avg_per_task_us r = 50))"
  using derived_statistics [of "\<lambda>k. 1000 * of_nat k" "boot_state\<lparr>context_switches := 19\<rparr>" 10]
  by (auto simp add: boot_state_def Let_def f32_round_values)

text \<open>
  The claim as stated fails in two ways. A paused pass at \<open>context_switches = 20\<close>, a
  positive multiple of 20, computes no statistics. And in an enabled pass that brings the
  counter to 20 with 3000 us of busy time in 1000000 us since boot, the utilization
  computed is \<open>5033165 / 16777216\<close> (0.30000001...), not 0.3, and utilization plus
  overhead is not 100.
\<close>

theorem derived_statistics_counterexample:
  "unat (context_switches (boot_state\<lparr>run_manual_scheduler := False, context_switches := 20\<rparr>)) = 20 \<and>
   manual_task_iteration (\<lambda>k. 0) (boot_state\<lparr>run_manual_scheduler := False, context_switches := 20\<rparr>) =
     Some (boot_state\<lparr>run_manual_scheduler := False, context_switches := 20\<rparr>) \<and>
   round_log (boot_state\<lparr>run_manual_scheduler := False, context_switches := 20\<rparr>) = [] \<and>
   (\<exists>st' r. manual_task_iteration
        (\<lambda>k. if k = 0 then 949850 else if k = 1 then 950000 else 1000000)
        (boot_state\<lparr>context_switches := 19, context_switch_time := 2850\<rparr>) = Some st' \<and>
      round_log st' = [r] \<and> rs_context_switches r = 20 \<and>
      rs_accumulated r = 3000 \<and> rs_total_time r = 1000000 \<and>
      rs_cpu_utilization r = 5033165 / 16777216 \<and>
      rs_cpu_utilization r \<noteq> 3000 / 1000000 * 100 \<and>
      rs_overhead_percentage r = 6533939 / 65536 \<and>
      rs_cpu_utilization r + rs_overhead_percentage r \<noteq> 100)"
proof -
  have paused: "manual_task_iteration (\<lambda>k. 0)
      (boot_state\<lparr>run_manual_scheduler := False, context_switches := 20\<rparr>) =
     Some (boot_state\<lparr>run_manual_scheduler := False, context_switches := 20\<rparr>)"
    by (simp add: manual_task_iteration_def)
  have enabled: "run_manual_scheduler (boot_state\<lparr>context_switches := 19, context_switch_time := 2850\<rparr>)"
    by (simp add: boot_state_def)
  have q: "(3000 :: real) / 1000000 = 3 / 1000"
    by simp
  show ?thesis
    by (simp add: paused manual_task_iteration_eq [OF enabled] manual_scheduler_frame Let_def
        float_of_u64_def f32_round_values q)
      (simp add: boot_state_def)
qed

section \<open>Properties of the cooperative scheduler\<close>

lemma coop_work_loop_emergency:
  assumes "emergency_flag st" and "i < quota"
  shows "coop_work_loop n pin quota i st =
     coop_gpio_set_level pin 0
       (coop_log (Yielding_for_emergency n) (coop_log (Work_unit n i True) st))"
  using assms by (subst coop_work_loop.simps) (simp add: coop_log_def Let_def)

lemma coop_work_loop_normal:
  assumes "\<not> emergency_flag st"
  shows "coop_trace (coop_work_loop n pin quota i st) =
           coop_trace st @ concat (map (\<lambda>j. [Work_unit n j False, Voluntary_yield n]) [i..<quota]) \<and>
         emergency_flag (coop_work_loop n pin quota i st) = emergency_flag st \<and>
         max_response_time (coop_work_loop n pin quota i st) = max_response_time st \<and>
         task_start_time (coop_work_loop n pin quota i st) = task_start_time st \<and>
         current_task (coop_work_loop n pin quota i st) = current_task st \<and>
         coop_clock_reads (coop_work_loop n pin quota i st) = coop_clock_reads st \<and>
         button_polls (coop_work_loop n pin quota i st) = button_polls st"
  using assms
proof (induction n pin quota i st rule: coop_work_loop.induct)
  case (1 n pin quota i st)
  show ?case
  proof (cases "i < quota")
    case True
    let ?st' = "coop_log (Voluntary_yield n) (coop_log (Work_unit n i (emergency_flag st)) st)"
    have f: "\<not> emergency_flag (coop_log (Work_unit n i (emergency_flag st)) st)"
      using 1(2) by (simp add: coop_log_def)
    have f': "\<not> emergency_flag ?st'"
      using 1(2) by (simp add: coop_log_def)
    have step: "coop_work_loop n pin quota i st = coop_work_loop n pin quota (i + 1) ?st'"
      using True f by (subst coop_work_loop.simps) (simp add: Let_def)
    have ih: "coop_trace (coop_work_loop n pin quota (i + 1) ?st') =
           coop_trace ?st' @ concat (map (\<lambda>j. [Work_unit n j False, Voluntary_yield n]) [i + 1..<quota]) \<and>
         emergency_flag (coop_work_loop n pin quota (i + 1) ?st') = emergency_flag ?st' \<and>
         max_response_time (coop_work_loop n pin quota (i + 1) ?st') = max_response_time ?st' \<and>
         task_start_time (coop_work_loop n pin quota (i + 1) ?st') = task_start_time ?st' \<and>
         current_task (coop_work_loop n pin quota (i + 1) ?st') = current_task ?st' \<and>
         coop_clock_reads (coop_work_loop n pin quota (i + 1) ?st') = coop_clock_reads ?st' \<and>
         button_polls (coop_work_loop n pin quota (i + 1) ?st') = button_polls ?st'"
      using 1(1) [OF True refl f f'] .
    have up: "[i..<quota] = i # [i + 1..<quota]"
      using True by (simp add: upt_conv_Cons)
    show ?thesis
      unfolding step up using ih 1(2) by (simp add: coop_log_def)
  next
    case False
    then show ?thesis
      by (subst (1 2 3 4 5 6 7) coop_work_loop.simps) (simp add: coop_gpio_set_level_def)
  qed
qed

lemma called_tasks_append:
  "called_tasks (xs @ ys) = called_tasks xs @ called_tasks ys"
  by (induction xs rule: called_tasks.induct) simp_all

lemma called_tasks_work:
  "called_tasks (concat (map (\<lambda>j. [Work_unit n j False, Voluntary_yield n]) js)) = []"
  by (induction js) simp_all

lemma cooperative_task1_emergency:
  assumes "emergency_flag st"
  shows "coop_trace (cooperative_task1 st) = coop_trace st @
           [Task_running 1 (task1_count st), Work_unit 1 0 True, Yielding_for_emergency 1]"
    and "emergency_flag (cooperative_task1 st)"
    and "max_response_time (cooperative_task1 st) = max_response_time st"
    and "current_task (cooperative_task1 st) = current_task st"
    and "task2_count (cooperative_task1 st) = task2_count st"
  using assms
  by (simp_all add: cooperative_task1_def coop_work_loop_emergency coop_log_def
      coop_gpio_set_level_def events_since_def)

lemma cooperative_task2_emergency:
  assumes "emergency_flag st"
  shows "coop_trace (cooperative_task2 st) = coop_trace st @
           [Task_running 2 (task2_count st), Work_unit 2 0 True, Yielding_for_emergency 2]"
    and "emergency_flag (cooperative_task2 st)"
    and "max_response_time (cooperative_task2 st) = max_response_time st"
    and "current_task (cooperative_task2 st) = current_task st"
  using assms
  by (simp_all add: cooperative_task2_def coop_work_loop_emergency coop_log_def
      coop_gpio_set_level_def events_since_def)

lemma cooperative_task1_normal:
  assumes "\<not> emergency_flag st"
  shows "coop_trace (cooperative_task1 st) = coop_trace st @
           (Task_running 1 (task1_count st) #
            concat (map (\<lambda>j. [Work_unit 1 j False, Voluntary_yield 1]) [0..<5]))"
    and "\<not> emergency_flag (cooperative_task1 st)"
    and "max_response_time (cooperative_task1 st) = max_response_time st"
    and "current_task (cooperative_task1 st) = current_task st"
proof -
  let ?s = "coop_gpio_set_level LED1_PIN 1
         (coop_log (Task_running 1 (task1_count st)) (st\<lparr>task1_count := task1_count st + 1\<rparr>))"
  have "\<not> emergency_flag ?s"
    using assms by (simp add: coop_log_def coop_gpio_set_level_def)
  note l = coop_work_loop_normal [OF this, of 1 LED1_PIN 5 0]
  show "coop_trace (cooperative_task1 st) = coop_trace st @
           (Task_running 1 (task1_count st) #
            concat (map (\<lambda>j. [Work_unit 1 j False, Voluntary_yield 1]) [0..<5]))"
    unfolding cooperative_task1_def
    by (simp only: l) (simp add: coop_log_def coop_gpio_set_level_def)
  show "\<not> emergency_flag (cooperative_task1 st)"
    unfolding cooperative_task1_def using assms
    by (simp only: l) (simp add: coop_log_def coop_gpio_set_level_def)
  show "max_response_time (cooperative_task1 st) = max_response_time st"
    unfolding cooperative_task1_def
    by (simp only: l) (simp add: coop_log_def coop_gpio_set_level_def)
  show "current_task (cooperative_task1 st) = current_task st"
    unfolding cooperative_task1_def
    by (simp only: l) (simp add: coop_log_def coop_gpio_set_level_def)
qed

lemma cooperative_task2_normal:
  assumes "\<not> emergency_flag st"
  shows "coop_trace (cooperative_task2 st) = coop_trace st @
           (Task_running 2 (task2_count st) #
            concat (map (\<lambda>j. [Work_unit 2 j False, Voluntary_yield 2]) [0..<10]))"
    and "\<not> emergency_flag (cooperative_task2 st)"
    and "max_response_time (cooperative_task2 st) = max_response_time st"
    and "current_task (cooperative_task2 st) = current_task st"
proof -
  let ?s = "coop_gpio_set_level LED2_PIN 1
         (coop_log (Task_running 2 (task2_count st)) (st\<lparr>task2_count := task2_count st + 1\<rparr>))"
  have "\<not> emergency_flag ?s"
    using assms by (simp add: coop_log_def coop_gpio_set_level_def)
  note l = coop_work_loop_normal [OF this, of 2 LED2_PIN 10 0]
  show "coop_trace (cooperative_task2 st) = coop_trace st @
           (Task_running 2 (task2_count st) #
            concat (map (\<lambda>j. [Work_unit 2 j False, Voluntary_yield 2]) [0..<10]))"
    unfolding cooperative_task2_def
    by (simp only: l) (simp add: coop_log_def coop_gpio_set_level_def)
  show "\<not> emergency_flag (cooperative_task2 st)"
    unfolding cooperative_task2_def using assms
    by (simp only: l) (simp add: coop_log_def coop_gpio_set_level_def)
  show "max_response_time (cooperative_task2 st) = max_response_time st"
    unfolding cooperative_task2_def
    by (simp only: l) (simp add: coop_log_def coop_gpio_set_level_def)
  show "current_task (cooperative_task2 st) = current_task st"
    unfolding cooperative_task2_def
    by (simp only: l) (simp add: coop_log_def coop_gpio_set_level_def)
qed

lemma cooperative_task3_emergency_active:
  assumes "emergency_flag st"
  shows "coop_trace (cooperative_task3_emergency clk st) = coop_trace st @
           [Emergency_response (response_ms_of (clk (coop_clock_reads st)) (task_start_time st))
              (max (max_response_time st)
                 (response_ms_of (clk (coop_clock_reads st)) (task_start_time st)))]"
    and "\<not> emergency_flag (cooperative_task3_emergency clk st)"
    and "max_response_time (cooperative_task3_emergency clk st) =
           max (max_response_time st)
             (response_ms_of (clk (coop_clock_reads st)) (task_start_time st))"
    and "current_task (cooperative_task3_emergency clk st) = current_task st"
  using assms
  by (auto simp add: cooperative_task3_emergency_def coop_get_time_def Let_def coop_log_def
      coop_gpio_set_level_def max_def)

lemma tasks_nth:
  "task_function (tasks ! 0) = (\<lambda>clk. cooperative_task1)"
  "task_function (tasks ! 1) = (\<lambda>clk. cooperative_task2)"
  "task_function (tasks ! 2) = cooperative_task3_emergency"
  "ready (tasks ! 0)" "ready (tasks ! 1)" "ready (tasks ! 2)"
  "num_tasks = 3"
  by (simp_all add: tasks_def num_tasks_def)

lemma task1_effect:
  "\<exists>new. coop_trace (cooperative_task1 st) = coop_trace st @ new \<and>
           called_tasks new = [] \<and>
           current_task (cooperative_task1 st) = current_task st \<and>
           max_response_time st \<le> max_response_time (cooperative_task1 st)"
proof (cases "emergency_flag st")
  case True
  then show ?thesis
    by (simp add: cooperative_task1_emergency)
next
  case False
  then show ?thesis
    by (simp add: cooperative_task1_normal called_tasks_work)
qed

lemma task2_effect:
  "\<exists>new. coop_trace (cooperative_task2 st) = coop_trace st @ new \<and>
           called_tasks new = [] \<and>
           current_task (cooperative_task2 st) = current_task st \<and>
           max_response_time st \<le> max_response_time (cooperative_task2 st)"
proof (cases "emergency_flag st")
  case True
  then show ?thesis
    by (simp add: cooperative_task2_emergency)
next
  case False
  then show ?thesis
    by (simp add: cooperative_task2_normal called_tasks_work)
qed

lemma task3_effect:
  "\<exists>new. coop_trace (cooperative_task3_emergency clk st) = coop_trace st @ new \<and>
           called_tasks new = [] \<and>
           current_task (cooperative_task3_emergency clk st) = current_task st \<and>
           max_response_time st \<le> max_response_time (cooperative_task3_emergency clk st)"
proof (cases "emergency_flag st")
  case True
  then show ?thesis
    by (simp add: cooperative_task3_emergency_active)
next
  case False
  then show ?thesis
    by (simp add: cooperative_task3_emergency_def)
qed

lemma task_function_effect:
  assumes "c < 3"
  shows "\<exists>new. coop_trace (task_function (tasks ! c) clk st) = coop_trace st @ new \<and>
           called_tasks new = [] \<and>
           current_task (task_function (tasks ! c) clk st) = current_task st \<and>
           max_response_time st \<le> max_response_time (task_function (tasks ! c) clk st)"
proof -
  from assms consider "c = 0" | "c = 1" | "c = 2"
    by arith
  then show ?thesis
  proof cases
    case 1
    show ?thesis unfolding 1 tasks_nth by (rule task1_effect)
  next
    case 2
    show ?thesis unfolding 2 tasks_nth by (rule task2_effect)
  next
    case 3
    show ?thesis unfolding 3 tasks_nth by (rule task3_effect)
  qed
qed

lemma ready_tasks: "c < 3 \<Longrightarrow> ready (tasks ! c)"
proof -
  assume "c < 3"
  then consider "c = 0" | "c = 1" | "c = 2"
    by arith
  then show ?thesis
    by cases (simp_all add: tasks_def)
qed

lemma scheduler_iteration_unfold:
  assumes "current_task st < 3"
  shows "scheduler_iteration btn clk st =
     (let st2 = (if btn (button_polls st) = 0 \<and> \<not> emergency_flag st then
                   coop_log Button_pressed
                     (st\<lparr>button_polls := button_polls st + 1, emergency_flag := True,
                         coop_clock_reads := coop_clock_reads st + 1,
                         task_start_time := clk (coop_clock_reads st)\<rparr>)
                 else st\<lparr>button_polls := button_polls st + 1\<rparr>);
          st3 = task_function (tasks ! current_task st) clk
                  (coop_log (Task_called (current_task st)) st2)
      in st3\<lparr>current_task := (current_task st3 + 1) mod 3\<rparr>)"
proof -
  have r: "ready (tasks ! current_task st)"
    using assms by (rule ready_tasks)
  show ?thesis
    by (cases "btn (button_polls st) = 0"; cases "emergency_flag st";
        simp add: scheduler_iteration_def gpio_get_level_def coop_get_time_def Let_def
          coop_log_def r tasks_nth(7))
qed

lemma scheduler_iteration_effect:
  assumes "current_task st < 3"
  shows "\<exists>new. coop_trace (scheduler_iteration btn clk st) = coop_trace st @ new \<and>
           called_tasks new = [current_task st] \<and>
           current_task (scheduler_iteration btn clk st) = (current_task st + 1) mod 3 \<and>
           max_response_time st \<le> max_response_time (scheduler_iteration btn clk st)"
proof -
  define st2 where "st2 =
    (if btn (button_polls st) = 0 \<and> \<not> emergency_flag st then
       coop_log Button_pressed
         (st\<lparr>button_polls := button_polls st + 1, emergency_flag := True,
             coop_clock_reads := coop_clock_reads st + 1,
             task_start_time := clk (coop_clock_reads st)\<rparr>)
     else st\<lparr>button_polls := button_polls st + 1\<rparr>)"
  define s where "s = coop_log (Task_called (current_task st)) st2"
  define st3 where "st3 = task_function (tasks ! current_task st) clk s"
  have it: "scheduler_iteration btn clk st = st3\<lparr>current_task := (current_task st3 + 1) mod 3\<rparr>"
    unfolding scheduler_iteration_unfold [OF assms] st3_def s_def st2_def Let_def ..
  obtain pre where pre: "coop_trace st2 = coop_trace st @ pre" "called_tasks pre = []"
    by (cases "btn (button_polls st) = 0"; cases "emergency_flag st";
        simp add: st2_def coop_log_def)
  have s1: "coop_trace s = coop_trace st @ pre @ [Task_called (current_task st)]"
    by (simp add: s_def coop_log_def pre)
  have s2: "current_task s = current_task st" "max_response_time s = max_response_time st"
    by (simp_all add: s_def st2_def coop_log_def)
  from task_function_effect [OF assms, of clk s]
  obtain new where new: "coop_trace st3 = coop_trace s @ new" "called_tasks new = []"
    "current_task st3 = current_task s" "max_response_time s \<le> max_response_time st3"
    unfolding st3_def by (elim exE conjE)
  have "coop_trace (scheduler_iteration btn clk st) =
          coop_trace st @ (pre @ [Task_called (current_task st)] @ new)"
    by (simp add: it new s1)
  moreover have "called_tasks (pre @ [Task_called (current_task st)] @ new) = [current_task st]"
    by (simp add: called_tasks_append pre new)
  moreover have "current_task (scheduler_iteration btn clk st) = (current_task st + 1) mod 3"
    by (simp add: it new s2)
  moreover have "max_response_time st \<le> max_response_time (scheduler_iteration btn clk st)"
    using new(4) by (simp add: it s2)
  ultimately show ?thesis
    by blast
qed

lemma next_task_shift: "(Suc c mod 3 + k) mod 3 = (c + Suc k) mod 3"
  by presburger

lemma scheduler_loop_effect:
  assumes "current_task st < 3"
  shows "\<exists>new. coop_trace (scheduler_loop n btn clk st) = coop_trace st @ new \<and>
           called_tasks new = map (\<lambda>k. (current_task st + k) mod 3) [0..<n] \<and>
           max_response_time st \<le> max_response_time (scheduler_loop n btn clk st)"
  using assms
proof (induction n arbitrary: st)
  case 0
  then show ?case by simp
next
  case (Suc n)
  let ?s = "scheduler_iteration btn clk st"
  from scheduler_iteration_effect [OF Suc.prems, of btn clk]
  obtain new1 where one: "coop_trace ?s = coop_trace st @ new1"
    "called_tasks new1 = [current_task st]"
    "current_task ?s = (current_task st + 1) mod 3"
    "max_response_time st \<le> max_response_time ?s"
    by (elim exE conjE)
  have "current_task ?s < 3"
    by (simp add: one)
  from Suc.IH [OF this]
  obtain new2 where rest: "coop_trace (scheduler_loop n btn clk ?s) = coop_trace ?s @ new2"
    "called_tasks new2 = map (\<lambda>k. (current_task ?s + k) mod 3) [0..<n]"
    "max_response_time ?s \<le> max_response_time (scheduler_loop n btn clk ?s)"
    by (elim exE conjE)
  have shift: "map (\<lambda>k. (current_task ?s + k) mod 3) [0..<n] =
               map (\<lambda>k. (current_task st + k) mod 3) (map Suc [0..<n])"
    using next_task_shift by (simp add: one)
  have up: "[0..<Suc n] = 0 # map Suc [0..<n]"
    by (simp add: upt_conv_Cons map_Suc_upt del: upt_Suc)
  have "coop_trace (scheduler_loop (Suc n) btn clk st) = coop_trace st @ (new1 @ new2)"
    by (simp add: rest one)
  moreover have "called_tasks (new1 @ new2) =
      map (\<lambda>k. (current_task st + k) mod 3) [0..<Suc n]"
  proof -
    have "called_tasks (new1 @ new2) =
        [current_task st] @ map (\<lambda>k. (current_task st + k) mod 3) (map Suc [0..<n])"
      by (simp only: called_tasks_append one(2) rest(2) shift)
    also have "\<dots> = map (\<lambda>k. (current_task st + k) mod 3) (0 # map Suc [0..<n])"
      using Suc.prems by simp
    finally show ?thesis
      by (simp only: up)
  qed
  moreover have "max_response_time st \<le> max_response_time (scheduler_loop (Suc n) btn clk st)"
    using one(4) rest(3) by simp
  ultimately show ?case
    by blast
qed

lemma cooperative_scheduler_calls:
  "\<exists>new. coop_trace (cooperative_scheduler n btn clk st) = coop_trace st @ new \<and>
         called_tasks new = map (\<lambda>k. k mod 3) [0..<n] \<and>
         max_response_time st \<le> max_response_time (cooperative_scheduler n btn clk st)"
  using scheduler_loop_effect [of "st\<lparr>current_task := 0\<rparr>" n btn clk]
  by (simp add: cooperative_scheduler_def)

lemma count_handler_passes:
  "count_list (map (\<lambda>k. k mod 3) [0..<n]) (2::nat) = n div 3"
proof (induction n)
  case 0
  then show ?case by simp
next
  case (Suc n)
  have "Suc n div 3 = n div 3 + (if n mod 3 = 2 then 1 else 0)"
    by presburger
  then show ?case
    using Suc by (simp add: count_list_append)
qed

lemma Task_called_in_set:
  "Task_called i \<in> set evs \<longleftrightarrow> i \<in> set (called_tasks evs)"
  by (induction evs rule: called_tasks.induct) auto

text \<open>
  Claim C3, as amended. The dispatcher calls one entry of its table per pass and
  advances round-robin, so from its start the pass number \<open>k\<close> calls entry \<open>k mod 3\<close>:
  Task1, Task2, the emergency handler, and again. The handler runs in every third pass
  (\<open>n div 3\<close> times in \<open>n\<close> passes), once per round of the table, not in every pass.
\<close>

theorem handler_every_third_pass:
  "called_tasks (events_since (length (coop_trace st)) (cooperative_scheduler n btn clk st)) =
     map (\<lambda>k. k mod 3) [0..<n] \<and>
   count_list (called_tasks
     (events_since (length (coop_trace st)) (cooperative_scheduler n btn clk st))) 2 = n div 3"
proof -
  from cooperative_scheduler_calls [of n btn clk st]
  obtain new where new: "coop_trace (cooperative_scheduler n btn clk st) = coop_trace st @ new"
    "called_tasks new = map (\<lambda>k. k mod 3) [0..<n]"
    by (elim exE conjE)
  have "events_since (length (coop_trace st)) (cooperative_scheduler n btn clk st) = new"
    by (simp add: events_since_def new)
  then show ?thesis
    by (simp only: new count_handler_passes)
qed

text \<open>
  The claim as stated fails on the first two passes from boot with the button released
  (level 1): the first pass does not call the handler, and Task1 is followed by Task2
  with no call of the handler between them.
\<close>

theorem handler_every_pass_counterexample:
  "\<not> handler_called_in_pass (\<lambda>k. 1) (\<lambda>k. 0) coop_boot_state \<and>
   called_tasks (coop_trace (cooperative_scheduler 2 (\<lambda>k. 1) (\<lambda>k. 0) coop_boot_state)) = [0, 1]"
proof -
  have b: "current_task coop_boot_state < 3" "coop_trace coop_boot_state = []"
    "current_task coop_boot_state = 0"
    by (simp_all add: coop_boot_state_def)
  from scheduler_iteration_effect [OF b(1), of "\<lambda>k. 1" "\<lambda>k. 0"]
  obtain new where new:
    "coop_trace (scheduler_iteration (\<lambda>k. 1) (\<lambda>k. 0) coop_boot_state) = new"
    "called_tasks new = [0]"
    unfolding b by auto
  have "events_since (length (coop_trace coop_boot_state))
          (scheduler_iteration (\<lambda>k. 1) (\<lambda>k. 0) coop_boot_state) = new"
    by (simp only: events_since_def b list.size drop_0 new)
  then have one: "\<not> handler_called_in_pass (\<lambda>k. 1) (\<lambda>k. 0) coop_boot_state"
    by (simp only: handler_called_in_pass_def Task_called_in_set new(2)) simp
  from cooperative_scheduler_calls [of 2 "\<lambda>k. 1" "\<lambda>k. 0" coop_boot_state]
  obtain new2 where new2:
    "coop_trace (cooperative_scheduler 2 (\<lambda>k. 1) (\<lambda>k. 0) coop_boot_state) = new2"
    "called_tasks new2 = map (\<lambda>k. k mod 3) [0..<2]"
    unfolding b by auto
  have "map (\<lambda>k. k mod 3) [0..<2] = [0, 1::nat]"
    by (simp add: upt_rec)
  with new2 have "called_tasks
      (coop_trace (cooperative_scheduler 2 (\<lambda>k. 1) (\<lambda>k. 0) coop_boot_state)) = [0, 1]"
    by (simp only:)
  with one show ?thesis
    by (rule conjI)
qed

lemma unat_response_ms_of:
  assumes "raised_at \<le> now"
  shows "unat (response_ms_of now raised_at) = (unat now - unat raised_at) div 1000 mod 2 ^ 32"
proof -
  have "unat (now - raised_at) = unat now - unat raised_at"
    using assms by (rule unat_sub)
  then have "unat ((now - raised_at) div 1000) = (unat now - unat raised_at) div 1000"
    by (simp add: unat_div)
  then show ?thesis
    by (simp add: response_ms_of_def unsigned_ucast_eq take_bit_eq_mod)
qed

text \<open>
  Claim C8. When the handler runs with the flag set it reads the clock, takes the
  latency \<open>now - task_start_time\<close> (in milliseconds, as \<open>uint32_t\<close>), leaves in
  \<open>max_response_time\<close> the maximum of its old value and that latency, logs both and
  clears the flag. With a clock that has not gone back the latency is the difference of
  the two times divided by 1000 (modulo \<open>2 ^ 32\<close>). Over any number of passes of the
  dispatcher \<open>max_response_time\<close> never decreases.
\<close>

theorem emergency_handler_postcondition:
  "(emergency_flag st \<longrightarrow>
      max_response_time (cooperative_task3_emergency clk st) =
        max (max_response_time st)
          (response_ms_of (clk (coop_clock_reads st)) (task_start_time st)) \<and>
      \<not> emergency_flag (cooperative_task3_emergency clk st) \<and>
      events_since (length (coop_trace st)) (cooperative_task3_emergency clk st) =
        [Emergency_response (response_ms_of (clk (coop_clock_reads st)) (task_start_time st))
           (max_response_time (cooperative_task3_emergency clk st))]) \<and>
   (raised_at \<le> now \<longrightarrow>
      unat (response_ms_of now raised_at) = (unat now - unat raised_at) div 1000 mod 2 ^ 32) \<and>
   max_response_time st \<le> max_response_time (cooperative_task3_emergency clk st) \<and>
   max_response_time st \<le> max_response_time (cooperative_scheduler n btn clk st)"
proof -
  have "max_response_time st \<le> max_response_time (cooperative_task3_emergency clk st)"
    using task3_effect [of clk st] by blast
  moreover have "max_response_time st \<le> max_response_time (cooperative_scheduler n btn clk st)"
    using cooperative_scheduler_calls [of n btn clk st] by blast
  ultimately show ?thesis
    by (simp add: cooperative_task3_emergency_active events_since_def unat_response_ms_of)
qed

theorem emergency_handler_postcondition_witness:
  "emergency_flag (coop_boot_state\<lparr>emergency_flag := True, task_start_time := 1000\<rparr>) \<and>
   (1000 :: u64) \<le> 251000 \<and>
   max_response_time (cooperative_task3_emergency (\<lambda>k. 251000)
     (coop_boot_state\<lparr>emergency_flag := True, task_start_time := 1000\<rparr>)) = 250 \<and>
   \<not> emergency_flag (cooperative_task3_emergency (\<lambda>k. 251000)
     (coop_boot_state\<lparr>emergency_flag := True, task_start_time := 1000\<rparr>)) \<and>
   unat (response_ms_of 251000 1000) = 250"
  using emergency_handler_postcondition
    [of "coop_boot_state\<lparr>emergency_flag := True, task_start_time := 1000\<rparr>"
        "\<lambda>k. 251000" 1000 251000 0 "\<lambda>k. 1"]
  by (simp add: coop_boot_state_def response_ms_of_def)

lemma task1_events:
  "events_since (length (coop_trace st)) (cooperative_task1 st) =
     (if emergency_flag st
      then [Task_running 1 (task1_count st), Work_unit 1 0 True, Yielding_for_emergency 1]
      else Task_running 1 (task1_count st) #
           concat (map (\<lambda>j. [Work_unit 1 j False, Voluntary_yield 1]) [0..<5]))"
  by (simp add: events_since_def cooperative_task1_emergency cooperative_task1_normal)

lemma task2_events:
  "events_since (length (coop_trace st)) (cooperative_task2 st) =
     (if emergency_flag st
      then [Task_running 2 (task2_count st), Work_unit 2 0 True, Yielding_for_emergency 2]
      else Task_running 2 (task2_count st) #
           concat (map (\<lambda>j. [Work_unit 2 j False, Voluntary_yield 2]) [0..<10]))"
  by (simp add: events_since_def cooperative_task2_emergency cooperative_task2_normal)

lemma two_passes_under_emergency:
  assumes "emergency_flag st" and "current_task st = 0"
  shows "events_since (length (coop_trace st)) (scheduler_loop 2 btn clk st) =
     [Task_called 0, Task_running 1 (task1_count st), Work_unit 1 0 True, Yielding_for_emergency 1,
      Task_called 1, Task_running 2 (task2_count st), Work_unit 2 0 True, Yielding_for_emergency 2]"
proof -
  let ?a = "coop_log (Task_called 0) (st\<lparr>button_polls := button_polls st + 1\<rparr>)"
  let ?s1 = "(cooperative_task1 ?a)\<lparr>current_task := 1\<rparr>"
  have fa: "emergency_flag ?a"
    using assms by (simp add: coop_log_def)
  have c1: "current_task (cooperative_task1 ?a) = 0"
    using cooperative_task1_emergency(4) [OF fa] assms by (simp add: coop_log_def)
  have it1: "scheduler_iteration btn clk st = ?s1"
    using assms c1
    by (simp add: scheduler_iteration_unfold tasks_nth Let_def coop_log_def)
  have t1: "coop_trace ?s1 = coop_trace st @
      [Task_called 0, Task_running 1 (task1_count st), Work_unit 1 0 True, Yielding_for_emergency 1]"
    using cooperative_task1_emergency(1) [OF fa] by (simp add: coop_log_def)
  have f1: "emergency_flag ?s1" "current_task ?s1 = 1" "task2_count ?s1 = task2_count st"
    using cooperative_task1_emergency(2,5) [OF fa] by (simp_all add: coop_log_def)
  let ?b = "coop_log (Task_called 1) (?s1\<lparr>button_polls := button_polls ?s1 + 1\<rparr>)"
  let ?s2 = "(cooperative_task2 ?b)\<lparr>current_task := 2\<rparr>"
  have fb: "emergency_flag ?b"
    using f1 by (simp add: coop_log_def)
  have c2: "current_task (cooperative_task2 ?b) = 1"
    using cooperative_task2_emergency(4) [OF fb] by (simp add: coop_log_def)
  have it2: "scheduler_iteration btn clk ?s1 = ?s2"
    using f1(1) c2
    by (simp add: scheduler_iteration_unfold tasks_nth tasks_nth(2) [unfolded One_nat_def]
        Let_def coop_log_def)
  have t2: "coop_trace ?s2 = coop_trace ?s1 @
      [Task_called 1, Task_running 2 (task2_count st), Work_unit 2 0 True, Yielding_for_emergency 2]"
    using f1(3) cooperative_task2_emergency(1) [OF fb] by (simp add: coop_log_def)
  have "scheduler_loop 2 btn clk st = ?s2"
    by (simp only: numeral_2_eq_2 scheduler_loop.simps it1 it2)
  then show ?thesis
    by (simp only: events_since_def t2 t1) simp
qed

lemma no_flagged_unit:
  "Work_unit n i True \<notin> set (concat (map (\<lambda>j. [Work_unit m j False, Voluntary_yield m]) js))"
  by (induction js) simp_all

lemma work_units_full:
  "work_units n (concat (map (\<lambda>j. [Work_unit n j False, Voluntary_yield n]) js)) = length js"
  by (induction js) (simp_all add: work_units_def)

lemma pass_with_button_press:
  assumes "\<not> emergency_flag st" and "current_task st = 0" and "btn (button_polls st) = 0"
  shows "events_since (length (coop_trace st)) (scheduler_iteration btn clk st) =
     [Button_pressed, Task_called 0, Task_running 1 (task1_count st), Work_unit 1 0 True,
      Yielding_for_emergency 1]"
proof -
  let ?a = "coop_log (Task_called 0)
      (coop_log Button_pressed
         (st\<lparr>button_polls := button_polls st + 1, emergency_flag := True,
             coop_clock_reads := coop_clock_reads st + 1,
             task_start_time := clk (coop_clock_reads st)\<rparr>))"
  have fa: "emergency_flag ?a"
    by (simp add: coop_log_def)
  have it: "scheduler_iteration btn clk st =
      (cooperative_task1 ?a)\<lparr>current_task := (current_task (cooperative_task1 ?a) + 1) mod 3\<rparr>"
    using assms by (simp add: scheduler_iteration_unfold tasks_nth Let_def)
  have "coop_trace (cooperative_task1 ?a) = coop_trace st @
      [Button_pressed, Task_called 0, Task_running 1 (task1_count st), Work_unit 1 0 True,
       Yielding_for_emergency 1]"
    using cooperative_task1_emergency(1) [OF fa] by (simp add: coop_log_def)
  then show ?thesis
    by (simp add: it events_since_def)
qed

text \<open>
  Claim C2. \<open>emergency_flag\<close> is written only by the dispatcher (set on a button
  press) and by the handler (cleared), never while Task1 or Task2 runs, so a work step
  that begins with the flag set is the first step of its task. The task then finishes
  that one unit, sees the flag at its yield point and returns: 1 unit instead of 5
  (Task1) or 10 (Task2), ending with its "yielding for emergency" line. Whenever a work
  unit of a task run began with the flag set, the run has fewer work units than the quota
  and ends with the emergency yield. In the dispatcher the call returns before the next
  entry is called: two passes started at Task1 with the flag set give the events of
  Task1 (one unit, yield), then the call of Task2 (one unit, yield); and a pass in which
  the button raises the flag runs Task1 for one unit only. Without the flag the tasks
  complete their quotas of 5 and 10 units.
\<close>

theorem cooperative_early_exit:
  "(Work_unit 1 i True \<in> set (events_since (length (coop_trace st)) (cooperative_task1 st)) \<longrightarrow>
      work_units 1 (events_since (length (coop_trace st)) (cooperative_task1 st)) < 5 \<and>
      last (events_since (length (coop_trace st)) (cooperative_task1 st)) =
        Yielding_for_emergency 1) \<and>
   (Work_unit 2 i True \<in> set (events_since (length (coop_trace st)) (cooperative_task2 st)) \<longrightarrow>
      work_units 2 (events_since (length (coop_trace st)) (cooperative_task2 st)) < 10 \<and>
      last (events_since (length (coop_trace st)) (cooperative_task2 st)) =
        Yielding_for_emergency 2) \<and>
   (emergency_flag st \<longrightarrow>
      events_since (length (coop_trace st)) (cooperative_task1 st) =
        [Task_running 1 (task1_count st), Work_unit 1 0 True, Yielding_for_emergency 1] \<and>
      events_since (length (coop_trace st)) (cooperative_task2 st) =
        [Task_running 2 (task2_count st), Work_unit 2 0 True, Yielding_for_emergency 2]) \<and>
   (emergency_flag st \<and> current_task st = 0 \<longrightarrow>
      events_since (length (coop_trace st)) (scheduler_loop 2 btn clk st) =
        [Task_called 0, Task_running 1 (task1_count st), Work_unit 1 0 True,
         Yielding_for_emergency 1,
         Task_called 1, Task_running 2 (task2_count st), Work_unit 2 0 True,
         Yielding_for_emergency 2]) \<and>
   (\<not> emergency_flag st \<and> current_task st = 0 \<and> btn (button_polls st) = 0 \<longrightarrow>
      events_since (length (coop_trace st)) (scheduler_iteration btn clk st) =
        [Button_pressed, Task_called 0, Task_running 1 (task1_count st), Work_unit 1 0 True,
         Yielding_for_emergency 1]) \<and>
   (\<not> emergency_flag st \<longrightarrow>
      work_units 1 (events_since (length (coop_trace st)) (cooperative_task1 st)) = 5 \<and>
      work_units 2 (events_since (length (coop_trace st)) (cooperative_task2 st)) = 10)"
proof (cases "emergency_flag st")
  case True
  then show ?thesis
    by (simp add: task1_events task2_events two_passes_under_emergency work_units_def)
next
  case False
  have full: "work_units n (Task_running m c #
        concat (map (\<lambda>j. [Work_unit n j False, Voluntary_yield n]) js)) = length js"
    for n m c js
    using work_units_full [of n js] by (simp add: work_units_def)
  from False show ?thesis
    by (simp add: task1_events task2_events no_flagged_unit pass_with_button_press full
        del: upt_Suc)
qed

theorem cooperative_early_exit_witness:
  "emergency_flag (coop_boot_state\<lparr>emergency_flag := True\<rparr>) \<and>
   current_task (coop_boot_state\<lparr>emergency_flag := True\<rparr>) = 0 \<and>
   Work_unit 1 0 True \<in>
     set (events_since 0 (cooperative_task1 (coop_boot_state\<lparr>emergency_flag := True\<rparr>))) \<and>
   work_units 1 (events_since 0 (cooperative_task1 (coop_boot_state\<lparr>emergency_flag := True\<rparr>))) = 1 \<and>
   Work_unit 2 0 True \<in>
     set (events_since 0 (cooperative_task2 (coop_boot_state\<lparr>emergency_flag := True\<rparr>))) \<and>
   work_units 2 (events_since 0 (cooperative_task2 (coop_boot_state\<lparr>emergency_flag := True\<rparr>))) = 1 \<and>
   events_since 0 (scheduler_loop 2 (\<lambda>k. 1) (\<lambda>k. 0) (coop_boot_state\<lparr>emergency_flag := True\<rparr>)) =
     [Task_called 0, Task_running 1 0, Work_unit 1 0 True, Yielding_for_emergency 1,
      Task_called 1, Task_running 2 0, Work_unit 2 0 True, Yielding_for_emergency 2]"
proof -
  let ?s = "coop_boot_state\<lparr>emergency_flag := True\<rparr>"
  have h: "emergency_flag ?s" "current_task ?s = 0" "length (coop_trace ?s) = 0"
    "task1_count ?s = 0" "task2_count ?s = 0"
    by (simp_all add: coop_boot_state_def)
  from cooperative_early_exit [of 0 ?s "\<lambda>k. 1" "\<lambda>k. 0"] h(1,2)
  have e: "events_since (length (coop_trace ?s)) (cooperative_task1 ?s) =
        [Task_running 1 (task1_count ?s), Work_unit 1 0 True, Yielding_for_emergency 1]"
    "events_since (length (coop_trace ?s)) (cooperative_task2 ?s) =
        [Task_running 2 (task2_count ?s), Work_unit 2 0 True, Yielding_for_emergency 2]"
    "events_since (length (coop_trace ?s)) (scheduler_loop 2 (\<lambda>k. 1) (\<lambda>k. 0) ?s) =
        [Task_called 0, Task_running 1 (task1_count ?s), Work_unit 1 0 True,
         Yielding_for_emergency 1,
         Task_called 1, Task_running 2 (task2_count ?s), Work_unit 2 0 True,
         Yielding_for_emergency 2]"
    by blast+
  show ?thesis
    using h(1,2) by (simp only: e [unfolded h(3,4,5)]) (simp add: work_units_def)
qed

end
